theory Spec2Isabelle
  imports Main "HOL-Library.Sublist" "HOL-Library.Char_ord" "HOL-Library.List_Lexorder"
begin

section \<open>SJCast: upload monitor and episode processing\<close>

text \<open>
  A shallow embedding of \<^verbatim>\<open>monitor.py\<close> (the discovery stage) and
  \<^verbatim>\<open>process_videos.py\<close> (the processing stage).

  Conventions of the embedding.
  \<^item> A Python \<^verbatim>\<open>str\<close> is a \<^typ>\<open>string\<close>; a character stands for its code point,
    so the strings covered are those of code points below 256.
  \<^item> The JSON files the two scripts persist (\<^verbatim>\<open>state.json\<close>, \<^verbatim>\<open>new_videos.json\<close>,
    \<^verbatim>\<open>episodes.json\<close>) are read back with the schema the scripts themselves write:
    a record per JSON object, a list per JSON array, \<open>None\<close> for \<^verbatim>\<open>null\<close>. A file
    that may be missing is an \<open>option\<close>.
  \<^item> Everything outside the two scripts (the YouTube client, \<^verbatim>\<open>yt-dlp\<close>, mutagen,
    b2sdk, the environment variables, the clock) is a field of an environment record:
    the scripts are functions of it. An exception raised inside one of these libraries
    is a value of \<open>error\<close>; the scripts catch none of them.
  \<^item> Text printed for a human reader is left out; the JSON a run prints is kept.
\<close>

subsection \<open>Python values\<close>

datatype error = HttpError | MutagenError | B2Error | FileNotFoundError | ValueError

text \<open>How a run of a script ends: \<^verbatim>\<open>sys.exit(n)\<close> or falling off the end of
  \<^verbatim>\<open>main\<close> (status 0), or an uncaught exception.\<close>

datatype outcome = Exit nat | Raised error

text \<open>Truth value of an optional string (\<^verbatim>\<open>if not key\<close>, \<^verbatim>\<open>if audio_url\<close>,
  \<^verbatim>\<open>all([...])\<close>): \<^verbatim>\<open>None\<close> and the empty string are false.\<close>

definition truthy :: "string option \<Rightarrow> bool" where
  "truthy s = (case s of None \<Rightarrow> False | Some t \<Rightarrow> t \<noteq> [])"

definition newline :: char where
  "newline = CHR 0x0A"

text \<open>\<^verbatim>\<open>str.isspace\<close> on one character, which is also the class \<^verbatim>\<open>\s\<close> of a
  \<^verbatim>\<open>str\<close> pattern: below 256 these are the code points 9 to 13, 28 to 32, 133
  and 160.\<close>

definition py_isspace :: "char \<Rightarrow> bool" where
  "py_isspace c =
     (let n = (of_char c :: nat)
      in (9 \<le> n \<and> n \<le> 13) \<or> (28 \<le> n \<and> n \<le> 32) \<or> n = 133 \<or> n = 160)"

text \<open>The class \<^verbatim>\<open>\d\<close> of a \<^verbatim>\<open>str\<close> pattern (Unicode decimal digits): below 256
  only \<^verbatim>\<open>0\<close> to \<^verbatim>\<open>9\<close>.\<close>

definition py_isdecimal :: "char \<Rightarrow> bool" where
  "py_isdecimal c = (let n = (of_char c :: nat) in 48 \<le> n \<and> n \<le> 57)"

text \<open>\<^verbatim>\<open>s.strip()\<close>: drop leading and trailing whitespace.\<close>

definition strip :: "string \<Rightarrow> string" where
  "strip s = rev (dropWhile py_isspace (rev (dropWhile py_isspace s)))"

subsection \<open>The title pattern\<close>

text \<open>
  Both scripts call \<^verbatim>\<open>re.search(r'^(.+),\s*(SJC-\d+)$', title)\<close>.

  \<open>match_docket_tail s\<close> matches the part of the pattern after group 1,
  \<^verbatim>\<open>,\s*(SJC-\d+)$\<close>, at the start of \<open>s\<close> and returns group 2. \<^verbatim>\<open>\s*\<close>
  and \<^verbatim>\<open>\d+\<close> are greedy; giving back a whitespace character (a digit) cannot help,
  since the next pattern item would have to match that character and \<^verbatim>\<open>S\<close> is not
  whitespace (\<^verbatim>\<open>$\<close> does not match before a digit). \<^verbatim>\<open>$\<close> without
  \<^verbatim>\<open>re.MULTILINE\<close> matches at the end of the string and just before a newline that
  is the last character.
\<close>

definition match_docket_tail :: "string \<Rightarrow> string option" where
  "match_docket_tail s =
     (case s of
        [] \<Rightarrow> None
      | c # r \<Rightarrow>
          if c \<noteq> CHR '','' then None
          else let r1 = dropWhile py_isspace r in
            if take 4 r1 \<noteq> ''SJC-'' then None
            else let ds = takeWhile py_isdecimal (drop 4 r1);
                     e = dropWhile py_isdecimal (drop 4 r1)
                 in if ds \<noteq> [] \<and> (e = [] \<or> e = [newline])
                    then Some (''SJC-'' @ ds) else None)"

text \<open>
  \<^verbatim>\<open>^(.+)\<close>: \<^verbatim>\<open>^\<close> matches at position 0 only, so the search succeeds at the
  first start position or nowhere. \<^verbatim>\<open>.+\<close> is greedy and \<^verbatim>\<open>.\<close> matches
  everything but a newline: group 1 first takes every character up to the first
  newline, then gives them back one at a time, down to one character, until the rest of
  the pattern matches. \<open>dot_plus title k\<close> tries group 1 of length \<open>k\<close>, then
  \<open>k - 1\<close>, ..., then 1, and returns groups 1 and 2 of the first match.
\<close>

fun dot_plus :: "string \<Rightarrow> nat \<Rightarrow> (string \<times> string) option" where
  "dot_plus title 0 = None"
| "dot_plus title (Suc k) =
     (case match_docket_tail (drop (Suc k) title) of
        Some d \<Rightarrow> Some (take (Suc k) title, d)
      | None \<Rightarrow> dot_plus title k)"

definition re_search_title :: "string \<Rightarrow> (string \<times> string) option" where
  "re_search_title title = dot_plus title (length (takeWhile (\<lambda>c. c \<noteq> newline) title))"

record case_info =
  case_name :: string
  docket :: "string option"

text \<open>\<^verbatim>\<open>parse_case_info\<close> of \<^verbatim>\<open>monitor.py\<close>.\<close>

definition monitor_parse_case_info :: "string \<Rightarrow> case_info" where
  "monitor_parse_case_info title =
     (case re_search_title title of
        Some (g1, g2) \<Rightarrow> \<lparr>case_name = strip g1, docket = Some g2\<rparr>
      | None \<Rightarrow> \<lparr>case_name = title, docket = None\<rparr>)"

subsection \<open>Discovery: \<^verbatim>\<open>monitor.py\<close>\<close>

text \<open>One item of the \<^verbatim>\<open>playlistItems().list\<close> response, as far as the script reads
  it: \<^verbatim>\<open>snippet.resourceId.videoId\<close>, \<^verbatim>\<open>snippet.title\<close>,
  \<^verbatim>\<open>snippet.publishedAt\<close> and the optional \<^verbatim>\<open>snippet.description\<close>.\<close>

record playlist_item =
  videoId :: string
  snippet_title :: string
  publishedAt :: string
  snippet_description :: "string option"

text \<open>The video dict the monitor builds, prints as JSON, and the processing stage reads
  from \<^verbatim>\<open>new_videos.json\<close>.\<close>

record video =
  v_id :: string
  v_title :: string
  v_published_at :: string
  v_description :: string

record monitor_state =
  seen_ids :: "string list"
  last_check :: "string option"

text \<open>The parsed command line. \<^verbatim>\<open>--list N\<close> is an optional integer.\<close>

record args =
  arg_init :: bool
  arg_list :: "int option"
  arg_json :: bool
  arg_all :: bool

text \<open>The monitor's environment: \<^verbatim>\<open>YOUTUBE_API_KEY\<close>, the answer of the uploads
  playlist to a request with a given \<^verbatim>\<open>maxResults\<close> (or the exception the client
  raises), and \<^verbatim>\<open>datetime.utcnow().isoformat()\<close>.\<close>

record monitor_env =
  youtube_api_key :: "string option"
  playlist_items :: "int \<Rightarrow> error + playlist_item list"
  utcnow :: string

text \<open>What a run of the monitor leaves: the state file, the JSON it printed (if any),
  and how it ended.\<close>

record monitor_result =
  state_file :: "monitor_state option"
  printed_json :: "video list option"
  exit_status :: outcome

definition load_state :: "monitor_state option \<Rightarrow> monitor_state" where
  "load_state file =
     (case file of
        Some st \<Rightarrow> st
      | None \<Rightarrow> \<lparr>seen_ids = [], last_check = None\<rparr>)"

definition save_state :: "monitor_state \<Rightarrow> monitor_state option" where
  "save_state state = Some state"

text \<open>The dict built for one item; the description is cut to 200 characters.\<close>

definition video_of_item :: "playlist_item \<Rightarrow> video" where
  "video_of_item item =
     \<lparr>v_id = videoId item,
      v_title = snippet_title item,
      v_published_at = publishedAt item,
      v_description = take 200 (case snippet_description item of None \<Rightarrow> [] | Some d \<Rightarrow> d)\<rparr>"

definition fetch_recent_uploads :: "monitor_env \<Rightarrow> int \<Rightarrow> error + video list" where
  "fetch_recent_uploads youtube max_results =
     (case playlist_items youtube (min max_results 50) of
        Inl e \<Rightarrow> Inl e
      | Inr items \<Rightarrow> Inr (map video_of_item items))"

definition check_for_new_videos :: "monitor_env \<Rightarrow> monitor_state \<Rightarrow> error + video list" where
  "check_for_new_videos youtube state =
     (case fetch_recent_uploads youtube 50 of
        Inl e \<Rightarrow> Inl e
      | Inr recent \<Rightarrow> Inr [v \<leftarrow> recent. v_id v \<notin> set (seen_ids state)])"

text \<open>\<^verbatim>\<open>if args.list:\<close> is false for a missing \<^verbatim>\<open>--list\<close> and for \<^verbatim>\<open>--list 0\<close>.\<close>

definition list_mode :: "args \<Rightarrow> bool" where
  "list_mode a = (case arg_list a of None \<Rightarrow> False | Some n \<Rightarrow> n \<noteq> 0)"

definition init_mode :: "args \<Rightarrow> bool" where
  "init_mode a = (\<not> list_mode a \<and> arg_init a)"

text \<open>The remaining runs: \<^verbatim>\<open>--all\<close> (backfill) and the default check.\<close>

definition all_mode :: "args \<Rightarrow> bool" where
  "all_mode a = (\<not> list_mode a \<and> \<not> arg_init a \<and> arg_all a)"

definition check_mode :: "args \<Rightarrow> bool" where
  "check_mode a = (\<not> list_mode a \<and> \<not> arg_init a \<and> \<not> arg_all a)"

text \<open>\<^verbatim>\<open>main\<close> of \<^verbatim>\<open>monitor.py\<close>, on the state file \<open>file\<close>.\<close>

definition monitor_main :: "args \<Rightarrow> monitor_env \<Rightarrow> monitor_state option \<Rightarrow> monitor_result" where
  "monitor_main a youtube file =
     (if \<not> truthy (youtube_api_key youtube)
      then \<lparr>state_file = file, printed_json = None, exit_status = Exit 1\<rparr>
      else let state = load_state file in
        if list_mode a then
          (case fetch_recent_uploads youtube (case arg_list a of Some n \<Rightarrow> n | None \<Rightarrow> 0) of
             Inl e \<Rightarrow> \<lparr>state_file = file, printed_json = None, exit_status = Raised e\<rparr>
           | Inr videos \<Rightarrow>
               \<lparr>state_file = file,
                printed_json = (if arg_json a then Some videos else None),
                exit_status = Exit 0\<rparr>)
        else if arg_init a then
          (case fetch_recent_uploads youtube 50 of
             Inl e \<Rightarrow> \<lparr>state_file = file, printed_json = None, exit_status = Raised e\<rparr>
           | Inr videos \<Rightarrow>
               \<lparr>state_file =
                  save_state (state\<lparr>seen_ids := map v_id videos,
                                     last_check := Some (utcnow youtube)\<rparr>),
                printed_json = None,
                exit_status = Exit 0\<rparr>)
        else
          (case (if arg_all a then fetch_recent_uploads youtube 50
                 else check_for_new_videos youtube state) of
             Inl e \<Rightarrow> \<lparr>state_file = file, printed_json = None, exit_status = Raised e\<rparr>
           | Inr new_videos \<Rightarrow>
               if arg_json a then
                 \<lparr>state_file = file,
                  printed_json = Some new_videos,
                  exit_status = Exit (if new_videos \<noteq> [] then 0 else 1)\<rparr>
               else
                 \<lparr>state_file =
                    save_state
                      ((if new_videos \<noteq> []
                        then state\<lparr>seen_ids := seen_ids state @ map v_id new_videos\<rparr>
                        else state)\<lparr>last_check := Some (utcnow youtube)\<rparr>),
                  printed_json = None,
                  exit_status = Exit (if new_videos \<noteq> [] then 0 else 1)\<rparr>))"

subsection \<open>Sample data\<close>

definition sample_items :: "playlist_item list" where
  "sample_items =
     [\<lparr>videoId = ''v3'', snippet_title = ''Commonwealth v. X, SJC-13444'',
       publishedAt = ''2024-03-01T10:00:00Z'', snippet_description = Some ''Oral argument''\<rparr>,
      \<lparr>videoId = ''v2'', snippet_title = ''Annual State of the Judiciary'',
       publishedAt = ''2024-02-01T10:00:00Z'', snippet_description = None\<rparr>,
      \<lparr>videoId = ''v1'', snippet_title = ''Doe v. Roe, SJC-13001'',
       publishedAt = ''2024-01-01T10:00:00Z'', snippet_description = Some []\<rparr>]"

definition sample_youtube :: monitor_env where
  "sample_youtube =
     \<lparr>youtube_api_key = Some ''key'',
      playlist_items = (\<lambda>n. Inr (take (nat n) sample_items)),
      utcnow = ''2024-03-02T00:00:00''\<rparr>"

definition sample_videos :: "video list" where
  "sample_videos =
     [\<lparr>v_id = ''v3'', v_title = ''Commonwealth v. X, SJC-13444'',
       v_published_at = ''2024-03-01T10:00:00Z'', v_description = ''Oral argument''\<rparr>,
      \<lparr>v_id = ''v2'', v_title = ''Annual State of the Judiciary'',
       v_published_at = ''2024-02-01T10:00:00Z'', v_description = []\<rparr>,
      \<lparr>v_id = ''v1'', v_title = ''Doe v. Roe, SJC-13001'',
       v_published_at = ''2024-01-01T10:00:00Z'', v_description = []\<rparr>]"

definition sample_state :: monitor_state where
  "sample_state = \<lparr>seen_ids = [''v2'', ''v0''], last_check = Some ''2024-02-02T00:00:00''\<rparr>"

definition no_args :: args where
  "no_args = \<lparr>arg_init = False, arg_list = None, arg_json = False, arg_all = False\<rparr>"

definition empty_youtube :: monitor_env where
  "empty_youtube =
     \<lparr>youtube_api_key = Some ''key'',
      playlist_items = (\<lambda>n. Inr []),
      utcnow = ''2024-03-02T00:00:00''\<rparr>"

subsection \<open>Title parsing in \<^verbatim>\<open>process_videos.py\<close>\<close>

text \<open>\<^verbatim>\<open>parse_case_info\<close> of \<^verbatim>\<open>process_videos.py\<close>: the same pattern, written on
  one line.\<close>

definition process_videos_parse_case_info :: "string \<Rightarrow> case_info" where
  "process_videos_parse_case_info title =
     (case re_search_title title of
        Some (g1, g2) \<Rightarrow> \<lparr>case_name = strip g1, docket = Some g2\<rparr>
      | None \<Rightarrow> \<lparr>case_name = title, docket = None\<rparr>)"

subsection \<open>Processing: \<^verbatim>\<open>process_videos.py\<close>\<close>

text \<open>One entry of \<^verbatim>\<open>episodes.json\<close>, as \<^verbatim>\<open>process_video\<close> builds it.
  \<^verbatim>\<open>audio_url\<close> is null when the upload returned no URL.\<close>

record episode =
  video_id :: string
  ep_title :: string
  ep_description :: string
  published_at :: string
  audio_url :: "string option"
  file_size :: nat
  processed_at :: string

text \<open>The ID3 frames \<^verbatim>\<open>tag_audio\<close> adds; \<open>COMM\<close> is the comment with description
  \<^verbatim>\<open>Docket\<close>.\<close>

datatype id3_frame = TIT2 string | TPE1 string | TALB string | TCON string | TDRC string | COMM string

text \<open>
  The environment of a processing run.
  \<^item> \<open>has_b2\<close>, \<open>has_mutagen\<close>, \<open>has_feedgen\<close>: whether the optional imports succeeded.
  \<^item> \<open>yt_dlp vid\<close>: the return code of the \<^verbatim>\<open>yt-dlp\<close> subprocess for the video, and
    the size of the file it leaves at \<^verbatim>\<open>audio/<vid>.mp3\<close>, if it leaves one.
  \<^item> \<open>mutagen_save vid frames size\<close>: opening the file, adding the frames and saving
    gives a file of a new size, or raises.
  \<^item> \<open>b2_application_key_id\<close>, \<open>b2_application_key\<close>, \<open>b2_bucket\<close>,
    \<open>podcast_base_url\<close>: the environment variables \<^verbatim>\<open>B2_APPLICATION_KEY_ID\<close>,
    \<^verbatim>\<open>B2_APPLICATION_KEY\<close>, \<^verbatim>\<open>B2_BUCKET\<close> and \<^verbatim>\<open>PODCAST_BASE_URL\<close>.
  \<^item> \<open>b2_upload bucket name\<close>: whether authorising, finding the bucket and uploading
    under the remote name all return; otherwise b2sdk raises.
  \<^item> \<open>feedgen_published date\<close>: whether feedgen's \<^verbatim>\<open>published\<close> accepts the
    string, that is, whether it parses as a date and the date carries a time zone;
    otherwise feedgen raises \<^verbatim>\<open>ValueError\<close>.
  \<^item> \<open>process_utcnow\<close>: \<^verbatim>\<open>datetime.utcnow().isoformat()\<close>.
\<close>

record process_env =
  has_b2 :: bool
  has_mutagen :: bool
  has_feedgen :: bool
  yt_dlp :: "string \<Rightarrow> int \<times> nat option"
  mutagen_save :: "string \<Rightarrow> id3_frame list \<Rightarrow> nat \<Rightarrow> error + nat"
  b2_application_key_id :: "string option"
  b2_application_key :: "string option"
  b2_bucket :: "string option"
  podcast_base_url :: "string option"
  b2_upload :: "string \<Rightarrow> string \<Rightarrow> bool"
  feedgen_published :: "string \<Rightarrow> bool"
  process_utcnow :: string

text \<open>A call that leaves the process: the download of a video, the tagging of its file,
  its upload.\<close>

datatype call = Fetch string | Tag string | Upload string

fun call_id :: "call \<Rightarrow> string" where
  "call_id (Fetch i) = i"
| "call_id (Tag i) = i"
| "call_id (Upload i) = i"

text \<open>What a run changes as it goes: the directory \<^verbatim>\<open>audio/\<close>, a map from a video id
  to the size of \<^verbatim>\<open>audio/<id>.mp3\<close>, and the calls made so far, in order.\<close>

record world =
  audio_dir :: "string \<rightharpoonup> nat"
  calls :: "call list"

definition PODCAST_TITLE :: string where
  "PODCAST_TITLE = ''SJC Oral Arguments''"

definition PODCAST_AUTHOR :: string where
  "PODCAST_AUTHOR = ''Massachusetts Supreme Judicial Court''"

text \<open>\<^verbatim>\<open>download_audio\<close> returns the path (\<open>True\<close>) or \<^verbatim>\<open>None\<close> (\<open>False\<close>). A file
  already at the path is reused without a download. The sanitised title the function
  computes is not used.\<close>

definition download_audio :: "process_env \<Rightarrow> world \<Rightarrow> string \<Rightarrow> string \<Rightarrow> world \<times> bool" where
  "download_audio env w vid vtitle =
     (if audio_dir w vid \<noteq> None then (w, True)
      else let (returncode, file) = yt_dlp env vid;
               w' = w\<lparr>audio_dir := (audio_dir w)(vid := file), calls := calls w @ [Fetch vid]\<rparr>
           in if returncode \<noteq> 0 then (w', False) else (w', True))"

text \<open>The frames of \<^verbatim>\<open>tag_audio\<close>: the year only when the first four characters of
  \<^verbatim>\<open>published_at\<close> are not empty, the docket only when the title has one.\<close>

definition id3_frames :: "video \<Rightarrow> id3_frame list" where
  "id3_frames video_info =
     (let case_info = process_videos_parse_case_info (v_title video_info);
          pub_date = take 4 (v_published_at video_info)
      in [TIT2 (v_title video_info), TPE1 PODCAST_AUTHOR, TALB PODCAST_TITLE, TCON ''Podcast'']
         @ (if pub_date \<noteq> [] then [TDRC pub_date] else [])
         @ (case docket case_info of
              Some d \<Rightarrow> if d \<noteq> [] then [COMM d] else []
            | None \<Rightarrow> []))"

definition tag_audio :: "process_env \<Rightarrow> world \<Rightarrow> string \<Rightarrow> video \<Rightarrow> world \<times> (error + unit)" where
  "tag_audio env w vid video_info =
     (if \<not> has_mutagen env then (w, Inr ())
      else let w' = w\<lparr>calls := calls w @ [Tag vid]\<rparr> in
        case audio_dir w vid of
          None \<Rightarrow> (w', Inl MutagenError)
        | Some sz \<Rightarrow>
            (case mutagen_save env vid (id3_frames video_info) sz of
               Inl e \<Rightarrow> (w', Inl e)
             | Inr sz' \<Rightarrow> (w'\<lparr>audio_dir := (audio_dir w)(vid \<mapsto> sz')\<rparr>, Inr ())))"

definition upload_to_b2 :: "process_env \<Rightarrow> world \<Rightarrow> string \<Rightarrow> world \<times> (error + string option)" where
  "upload_to_b2 env w vid =
     (if \<not> has_b2 env then (w, Inr None)
      else let key_id = b2_application_key_id env;
               app_key = b2_application_key env;
               bucket_name = (case b2_bucket env of None \<Rightarrow> ''sjc-podcast'' | Some b \<Rightarrow> b)
        in if \<not> (truthy key_id \<and> truthy app_key \<and> bucket_name \<noteq> []) then (w, Inr None)
           else let remote_name = ''episodes/'' @ vid @ ''.mp3'';
                    w' = w\<lparr>calls := calls w @ [Upload vid]\<rparr>
             in if \<not> b2_upload env bucket_name remote_name then (w', Inl B2Error)
                else let base_url =
                           (case podcast_base_url env of
                              None \<Rightarrow> ''https://f000.backblazeb2.com/file/sjc-podcast''
                            | Some u \<Rightarrow> u)
                  in (w', Inr (Some (base_url @ ''/'' @ remote_name))))"

definition load_episodes :: "episode list option \<Rightarrow> episode list" where
  "load_episodes file = (case file of Some eps \<Rightarrow> eps | None \<Rightarrow> [])"

definition save_episodes :: "episode list \<Rightarrow> episode list option" where
  "save_episodes episodes = Some episodes"

text \<open>\<^verbatim>\<open>process_video\<close>: the episode, \<^verbatim>\<open>None\<close> when the download failed, or the
  exception of the tagging or of the upload. The file size is read after tagging;
  the file is removed only for a URL that is true (not null, not empty).\<close>

definition process_video :: "process_env \<Rightarrow> world \<Rightarrow> video \<Rightarrow> world \<times> (error + episode option)" where
  "process_video env w video_info =
     (let vid = v_id video_info;
          vtitle = v_title video_info;
          (w1, audio_path) = download_audio env w vid vtitle
      in if \<not> audio_path \<or> audio_dir w1 vid = None then (w1, Inr None)
         else case tag_audio env w1 vid video_info of
             (w2, Inl e) \<Rightarrow> (w2, Inl e)
           | (w2, Inr u) \<Rightarrow>
               (case audio_dir w2 vid of
                  None \<Rightarrow> (w2, Inl FileNotFoundError)
                | Some sz \<Rightarrow>
                    (case upload_to_b2 env w2 vid of
                       (w3, Inl e) \<Rightarrow> (w3, Inl e)
                     | (w3, Inr url) \<Rightarrow>
                         let episode =
                               \<lparr>video_id = vid,
                                ep_title = vtitle,
                                ep_description = v_description video_info,
                                published_at = v_published_at video_info,
                                audio_url = url,
                                file_size = sz,
                                processed_at = process_utcnow env\<rparr>;
                             w4 = (if truthy url \<and> audio_dir w3 vid \<noteq> None
                                   then w3\<lparr>audio_dir := (audio_dir w3)(vid := None)\<rparr>
                                   else w3)
                         in (w4, Inr (Some episode)))))"

text \<open>The loop of \<^verbatim>\<open>main\<close> over \<^verbatim>\<open>new_videos\<close>. \<open>existing_ids\<close> is computed once,
  before the loop, from the catalog as loaded.\<close>

fun process_loop ::
  "process_env \<Rightarrow> string set \<Rightarrow> video list \<Rightarrow> world \<Rightarrow> episode list
     \<Rightarrow> world \<times> (error + episode list)" where
  "process_loop env existing_ids [] w episodes = (w, Inr episodes)"
| "process_loop env existing_ids (v # new_videos) w episodes =
     (if v_id v \<in> existing_ids then process_loop env existing_ids new_videos w episodes
      else case process_video env w v of
          (w', Inl e) \<Rightarrow> (w', Inl e)
        | (w', Inr None) \<Rightarrow> process_loop env existing_ids new_videos w' episodes
        | (w', Inr (Some episode)) \<Rightarrow>
            process_loop env existing_ids new_videos w' (episodes @ [episode]))"

subsection \<open>Feed generation\<close>

text \<open>\<^verbatim>\<open>sorted(xs, key=f, reverse=True)\<close>: CPython reverses the list, sorts it with
  its stable sort, and reverses the result, so elements with equal keys keep their
  order. Strings compare by code point, a proper prefix first.\<close>

definition py_sorted_reverse :: "('a \<Rightarrow> 'k::linorder) \<Rightarrow> 'a list \<Rightarrow> 'a list" where
  "py_sorted_reverse f xs = rev (sort_key f (rev xs))"

text \<open>One entry of the feed, as the setters called on it leave it: \<^verbatim>\<open>id\<close>,
  \<^verbatim>\<open>title\<close>, \<^verbatim>\<open>description\<close>, \<^verbatim>\<open>published\<close>, the enclosure (URL, length,
  type) and the iTunes subtitle.\<close>

record feed_entry =
  fe_id :: string
  fe_title :: string
  fe_description :: string
  fe_published :: string
  fe_enclosure :: "(string \<times> nat \<times> string) option"
  fe_itunes_subtitle :: "string option"

text \<open>
  feedgen's \<^verbatim>\<open>FeedGenerator.add_entry(feedEntry=None, order='prepend')\<close> creates the
  entry and inserts it at the head of the generator's entry list, unless
  \<^verbatim>\<open>order='append'\<close> is passed; \<^verbatim>\<open>rss_file\<close> writes the entries in the order of
  that list. The feed document is modelled by this list.
\<close>

datatype entry_order = Prepend | Append

definition add_entry :: "entry_order \<Rightarrow> feed_entry list \<Rightarrow> feed_entry \<Rightarrow> feed_entry list" where
  "add_entry order entries fe = (case order of Prepend \<Rightarrow> fe # entries | Append \<Rightarrow> entries @ [fe])"

text \<open>The body of the loop of \<^verbatim>\<open>generate_feed\<close>: the entry made for one episode.\<close>

definition feed_entry_of :: "episode \<Rightarrow> feed_entry" where
  "feed_entry_of ep =
     \<lparr>fe_id = video_id ep,
      fe_title = ep_title ep,
      fe_description = ep_description ep,
      fe_published = published_at ep,
      fe_enclosure =
        (if truthy (audio_url ep)
         then Some (case audio_url ep of Some u \<Rightarrow> u | None \<Rightarrow> [], file_size ep, ''audio/mpeg'')
         else None),
      fe_itunes_subtitle =
        (case docket (process_videos_parse_case_info (ep_title ep)) of
           Some d \<Rightarrow> if d \<noteq> [] then Some (''Docket: '' @ d) else None
         | None \<Rightarrow> None)\<rparr>"

text \<open>The episodes in the order in which the loop of \<^verbatim>\<open>generate_feed\<close> visits them.\<close>

definition sorted_episodes :: "episode list \<Rightarrow> episode list" where
  "sorted_episodes episodes = py_sorted_reverse published_at episodes"

text \<open>The loop of \<^verbatim>\<open>generate_feed\<close> over the sorted episodes, on the entry list
  \<open>fg\<close> of the generator. Each episode gets an entry by \<^verbatim>\<open>fg.add_entry()\<close>, that
  is, with the default order; \<^verbatim>\<open>fe.published\<close> raises for a date feedgen does not
  accept, which ends the loop.\<close>

fun add_entries :: "process_env \<Rightarrow> feed_entry list \<Rightarrow> episode list \<Rightarrow> error + feed_entry list" where
  "add_entries env fg [] = Inr fg"
| "add_entries env fg (ep # eps) =
     (if feedgen_published env (published_at ep)
      then add_entries env (add_entry Prepend fg (feed_entry_of ep)) eps
      else Inl ValueError)"

text \<open>\<^verbatim>\<open>generate_feed\<close> on the feed file \<open>old\<close>: without feedgen the file is left as it
  is; otherwise it is rewritten with one entry per episode, unless the loop raises, in
  which case \<^verbatim>\<open>rss_file\<close> is not reached and the file is left as it is.\<close>

definition generate_feed ::
  "process_env \<Rightarrow> episode list \<Rightarrow> feed_entry list option \<Rightarrow> error + feed_entry list option" where
  "generate_feed env episodes old =
     (if \<not> has_feedgen env then Inr old
      else case add_entries env [] (sorted_episodes episodes) of
          Inl e \<Rightarrow> Inl e
        | Inr fg \<Rightarrow> Inr (Some fg))"

subsection \<open>\<^verbatim>\<open>main\<close> of \<^verbatim>\<open>process_videos.py\<close>\<close>

text \<open>What a processing run leaves: the catalog file, the feed file, the audio directory
  with the calls made, and how the run ended.\<close>

record process_result =
  episodes_file :: "episode list option"
  feed_file :: "feed_entry list option"
  final_world :: world
  process_exit :: outcome

text \<open>\<^verbatim>\<open>main\<close> on the files \<^verbatim>\<open>new_videos.json\<close>, \<^verbatim>\<open>episodes.json\<close> and
  \<^verbatim>\<open>feed.xml\<close>. An exception in the loop ends the run before the catalog is saved;
  an exception in \<^verbatim>\<open>generate_feed\<close> ends it after the catalog is saved and before
  the feed is written.\<close>

definition process_videos_main ::
  "process_env \<Rightarrow> world \<Rightarrow> video list option \<Rightarrow> episode list option \<Rightarrow> feed_entry list option
     \<Rightarrow> process_result" where
  "process_videos_main env w new_videos_file catalog feed =
     (case new_videos_file of
        None \<Rightarrow>
          \<lparr>episodes_file = catalog, feed_file = feed, final_world = w, process_exit = Exit 0\<rparr>
      | Some new_videos \<Rightarrow>
          if new_videos = [] then
            \<lparr>episodes_file = catalog, feed_file = feed, final_world = w, process_exit = Exit 0\<rparr>
          else
            let episodes = load_episodes catalog;
                existing_ids = set (map video_id episodes)
            in case process_loop env existing_ids new_videos w episodes of
                (w', Inl e) \<Rightarrow>
                  \<lparr>episodes_file = catalog, feed_file = feed, final_world = w',
                   process_exit = Raised e\<rparr>
              | (w', Inr episodes') \<Rightarrow>
                  (case generate_feed env episodes' feed of
                     Inl e \<Rightarrow>
                       \<lparr>episodes_file = save_episodes episodes', feed_file = feed,
                        final_world = w', process_exit = Raised e\<rparr>
                   | Inr feed' \<Rightarrow>
                       \<lparr>episodes_file = save_episodes episodes', feed_file = feed',
                        final_world = w', process_exit = Exit 0\<rparr>))"

subsection \<open>Sample data of the processing stage\<close>

definition empty_world :: world where
  "empty_world = \<lparr>audio_dir = Map.empty, calls = []\<rparr>"

text \<open>An environment in which every download succeeds with a file of 1000 bytes, there
  is no tagging library and no storage credentials, and feedgen accepts the timestamps
  of twenty characters that end in \<^verbatim>\<open>Z\<close>, the form of \<^verbatim>\<open>publishedAt\<close>.\<close>

definition sample_env :: process_env where
  "sample_env =
     \<lparr>has_b2 = True, has_mutagen = False, has_feedgen = True,
      yt_dlp = (\<lambda>vid. (0, Some 1000)),
      mutagen_save = (\<lambda>vid frames sz. Inr (sz + 128)),
      b2_application_key_id = None, b2_application_key = None, b2_bucket = None,
      podcast_base_url = None,
      b2_upload = (\<lambda>bucket name. True),
      feedgen_published = (\<lambda>date. length date = 20 \<and> last date = CHR ''Z''),
      process_utcnow = ''2024-03-02T01:00:00''\<rparr>"

text \<open>The same with tagging and with storage credentials.\<close>

definition sample_env_b2 :: process_env where
  "sample_env_b2 =
     sample_env\<lparr>has_mutagen := True,
                b2_application_key_id := Some ''id'', b2_application_key := Some ''secret''\<rparr>"

text \<open>The same as \<open>sample_env\<close> with every download failing.\<close>

definition sample_env_offline :: process_env where
  "sample_env_offline = sample_env\<lparr>yt_dlp := (\<lambda>vid. (1, None))\<rparr>"

definition sample_video :: video where
  "sample_video =
     \<lparr>v_id = ''v3'', v_title = ''Commonwealth v. X, SJC-13444'',
      v_published_at = ''2024-03-01T10:00:00Z'', v_description = ''Oral argument''\<rparr>"

definition sample_episode :: episode where
  "sample_episode =
     \<lparr>video_id = ''v3'', ep_title = ''Commonwealth v. X, SJC-13444'',
      ep_description = ''Oral argument'', published_at = ''2024-03-01T10:00:00Z'',
      audio_url = None, file_size = 1000, processed_at = ''2024-03-02T01:00:00''\<rparr>"

text \<open>Three episodes published on 2024-01-01, 2024-03-01 and 2024-02-01 (at noon UTC,
  written as YouTube writes \<^verbatim>\<open>publishedAt\<close>), in this order in the catalog.\<close>

definition dated_episode :: "string \<Rightarrow> string \<Rightarrow> episode" where
  "dated_episode vid date =
     \<lparr>video_id = vid, ep_title = ''Argument '' @ vid, ep_description = [],
      published_at = date, audio_url = None, file_size = 1000,
      processed_at = ''2024-03-02T01:00:00''\<rparr>"

definition sample_catalog :: "episode list" where
  "sample_catalog =
     [dated_episode ''a'' ''2024-01-01T12:00:00Z'',
      dated_episode ''b'' ''2024-03-01T12:00:00Z'',
      dated_episode ''c'' ''2024-02-01T12:00:00Z'']"

text \<open>The same three episodes with the dates written without time and time zone.\<close>

definition date_only_catalog :: "episode list" where
  "date_only_catalog =
     [dated_episode ''a'' ''2024-01-01'',
      dated_episode ''b'' ''2024-03-01'',
      dated_episode ''c'' ''2024-02-01'']"

section \<open>Properties\<close>

subsection \<open>New-item detection\<close>

lemma count_list_filter:
  "count_list (filter P xs) x = (if P x then count_list xs x else 0)"
  by (induction xs) auto

text \<open>
  Claim C1. For every monitor state \<open>S\<close> and every upload-source response \<open>R\<close>, the
  check returns exactly the items of \<open>R\<close> whose id is not in \<open>S.seen_ids\<close>, in the
  relative order of \<open>R\<close>: the result is a subsequence of the fetched list, every item
  with a seen id is absent from it, and every item with an unseen id occurs in it as
  often as in the fetched list.
\<close>

theorem check_for_new_videos_exact:
  assumes "fetch_recent_uploads youtube 50 = Inr R"
  shows "\<exists>new. check_for_new_videos youtube S = Inr new
           \<and> subseq new R
           \<and> (\<forall>v. count_list new v = (if v_id v \<in> set (seen_ids S) then 0 else count_list R v))"
  using assms by (simp add: check_for_new_videos_def count_list_filter)

lemma fetch_sample: "fetch_recent_uploads sample_youtube 50 = Inr sample_videos"
  by (simp add: fetch_recent_uploads_def sample_youtube_def sample_items_def sample_videos_def
      video_of_item_def)

theorem check_for_new_videos_exact_witness:
  "fetch_recent_uploads sample_youtube 50 = Inr sample_videos
   \<and> (\<exists>new. check_for_new_videos sample_youtube sample_state = Inr new
           \<and> subseq new sample_videos
           \<and> (\<forall>v. count_list new v =
                  (if v_id v \<in> set (seen_ids sample_state) then 0 else count_list sample_videos v)))
   \<and> check_for_new_videos sample_youtube sample_state = Inr [sample_videos ! 0, sample_videos ! 2]"
proof -
  have "check_for_new_videos sample_youtube sample_state = Inr [sample_videos ! 0, sample_videos ! 2]"
    by (simp add: check_for_new_videos_def fetch_sample sample_state_def sample_videos_def)
  with fetch_sample check_for_new_videos_exact [OF fetch_sample, of sample_state]
  show ?thesis by blast
qed

subsection \<open>The monitor's runs\<close>

lemmas mode_defs = list_mode_def init_mode_def all_mode_def check_mode_def

lemma truthy_sample: "truthy (youtube_api_key sample_youtube)"
  by (simp add: truthy_def sample_youtube_def)

lemma check_sample:
  "check_for_new_videos sample_youtube (load_state (Some sample_state))
     = Inr [sample_videos ! 0, sample_videos ! 2]"
  by (simp add: check_for_new_videos_def fetch_sample sample_state_def sample_videos_def
      load_state_def)

text \<open>
  Claim C4, as amended. A run with \<^verbatim>\<open>--json\<close> in list, check or all mode never
  modifies the state file, and neither does any run that prints JSON; a
  \<^verbatim>\<open>--json\<close> check or all run prints the items it found and exits with status 1
  (none found) when there are none, with status 0 otherwise. State is persisted in
  every init run, with or without \<^verbatim>\<open>--json\<close>, and in check and all runs without
  \<^verbatim>\<open>--json\<close>, whenever the key is set and the fetch returns. An init run ignores
  \<^verbatim>\<open>--json\<close>: it replaces \<open>seen_ids\<close> by the visible ids, stamps
  \<open>last_check\<close>, prints no JSON and exits with status 0.
\<close>

theorem json_run_state_policy:
  "(list_mode a \<or> (arg_json a \<and> \<not> arg_init a) \<longrightarrow> state_file (monitor_main a y file) = file)
    \<and> (printed_json (monitor_main a y file) \<noteq> None \<longrightarrow> state_file (monitor_main a y file) = file)
    \<and> (\<forall>new. arg_json a \<and> \<not> list_mode a \<and> \<not> arg_init a \<and> truthy (youtube_api_key y)
          \<and> (if arg_all a then fetch_recent_uploads y 50
               else check_for_new_videos y (load_state file)) = Inr new
         \<longrightarrow> printed_json (monitor_main a y file) = Some new
             \<and> exit_status (monitor_main a y file) = Exit (if new = [] then 1 else 0))
    \<and> (\<forall>vs. \<not> list_mode a \<and> (arg_init a \<or> \<not> arg_json a) \<and> truthy (youtube_api_key y)
          \<and> fetch_recent_uploads y 50 = Inr vs
         \<longrightarrow> (\<exists>st. state_file (monitor_main a y file) = Some st
                \<and> last_check st = Some (utcnow y)))
    \<and> (\<forall>vs. init_mode a \<and> truthy (youtube_api_key y) \<and> fetch_recent_uploads y 50 = Inr vs
         \<longrightarrow> state_file (monitor_main a y file)
               = Some ((load_state file)\<lparr>seen_ids := map v_id vs,
                                          last_check := Some (utcnow y)\<rparr>)
             \<and> printed_json (monitor_main a y file) = None
             \<and> exit_status (monitor_main a y file) = Exit 0)"
  by (auto simp add: monitor_main_def Let_def save_state_def check_for_new_videos_def
      init_mode_def split: sum.splits)

theorem json_run_state_policy_witness:
  "arg_json (no_args\<lparr>arg_json := True\<rparr>) \<and> \<not> arg_init (no_args\<lparr>arg_json := True\<rparr>)
   \<and> \<not> list_mode (no_args\<lparr>arg_json := True\<rparr>)
   \<and> state_file (monitor_main (no_args\<lparr>arg_json := True\<rparr>) sample_youtube (Some sample_state))
       = Some sample_state
   \<and> printed_json (monitor_main (no_args\<lparr>arg_json := True\<rparr>) sample_youtube (Some sample_state))
       = Some [sample_videos ! 0, sample_videos ! 2]
   \<and> exit_status (monitor_main (no_args\<lparr>arg_json := True\<rparr>) sample_youtube (Some sample_state))
       = Exit 0
   \<and> (\<exists>st. state_file (monitor_main no_args sample_youtube (Some sample_state)) = Some st
          \<and> last_check st = Some (utcnow sample_youtube))
   \<and> check_for_new_videos empty_youtube (load_state (Some sample_state)) = Inr []
   \<and> state_file (monitor_main (no_args\<lparr>arg_json := True\<rparr>) empty_youtube (Some sample_state))
       = Some sample_state
   \<and> printed_json (monitor_main (no_args\<lparr>arg_json := True\<rparr>) empty_youtube (Some sample_state))
       = Some []
   \<and> exit_status (monitor_main (no_args\<lparr>arg_json := True\<rparr>) empty_youtube (Some sample_state))
       = Exit 1
   \<and> init_mode (no_args\<lparr>arg_init := True, arg_json := True\<rparr>)
   \<and> state_file (monitor_main (no_args\<lparr>arg_init := True, arg_json := True\<rparr>) sample_youtube
         (Some sample_state))
       = Some \<lparr>seen_ids = [''v3'', ''v2'', ''v1''], last_check = Some ''2024-03-02T00:00:00''\<rparr>
   \<and> printed_json (monitor_main (no_args\<lparr>arg_init := True, arg_json := True\<rparr>) sample_youtube
         (Some sample_state))
       = None
   \<and> exit_status (monitor_main (no_args\<lparr>arg_init := True, arg_json := True\<rparr>) sample_youtube
         (Some sample_state))
       = Exit 0"
proof -
  have a: "arg_json (no_args\<lparr>arg_json := True\<rparr>)" "\<not> arg_init (no_args\<lparr>arg_json := True\<rparr>)"
    "\<not> list_mode (no_args\<lparr>arg_json := True\<rparr>)" "\<not> arg_all (no_args\<lparr>arg_json := True\<rparr>)"
    "\<not> list_mode no_args" "\<not> arg_json no_args"
    "init_mode (no_args\<lparr>arg_init := True, arg_json := True\<rparr>)"
    by (simp_all add: no_args_def list_mode_def init_mode_def)
  have e: "truthy (youtube_api_key empty_youtube)"
    "check_for_new_videos empty_youtube (load_state (Some sample_state)) = Inr []"
    by (simp_all add: truthy_def empty_youtube_def check_for_new_videos_def
        fetch_recent_uploads_def)
  have i: "(load_state (Some sample_state))\<lparr>seen_ids := map v_id sample_videos,
               last_check := Some (utcnow sample_youtube)\<rparr>
      = \<lparr>seen_ids = [''v3'', ''v2'', ''v1''], last_check = Some ''2024-03-02T00:00:00''\<rparr>"
    by (simp add: load_state_def sample_state_def sample_videos_def sample_youtube_def)
  from json_run_state_policy [of "no_args\<lparr>arg_json := True\<rparr>" sample_youtube "Some sample_state"]
    json_run_state_policy [of no_args sample_youtube "Some sample_state"]
    a truthy_sample check_sample fetch_sample
  have 1: "state_file (monitor_main (no_args\<lparr>arg_json := True\<rparr>) sample_youtube (Some sample_state))
       = Some sample_state"
    "printed_json (monitor_main (no_args\<lparr>arg_json := True\<rparr>) sample_youtube (Some sample_state))
       = Some [sample_videos ! 0, sample_videos ! 2]"
    "exit_status (monitor_main (no_args\<lparr>arg_json := True\<rparr>) sample_youtube (Some sample_state))
       = Exit 0"
    "\<exists>st. state_file (monitor_main no_args sample_youtube (Some sample_state)) = Some st
          \<and> last_check st = Some (utcnow sample_youtube)"
    by simp_all
  from json_run_state_policy [of "no_args\<lparr>arg_json := True\<rparr>" empty_youtube "Some sample_state"]
    a e
  have 2: "state_file (monitor_main (no_args\<lparr>arg_json := True\<rparr>) empty_youtube (Some sample_state))
       = Some sample_state"
    "printed_json (monitor_main (no_args\<lparr>arg_json := True\<rparr>) empty_youtube (Some sample_state))
       = Some []"
    "exit_status (monitor_main (no_args\<lparr>arg_json := True\<rparr>) empty_youtube (Some sample_state))
       = Exit 1"
    by simp_all
  from json_run_state_policy [of "no_args\<lparr>arg_init := True, arg_json := True\<rparr>" sample_youtube
      "Some sample_state"] a(7) truthy_sample fetch_sample
  have 3: "state_file (monitor_main (no_args\<lparr>arg_init := True, arg_json := True\<rparr>) sample_youtube
         (Some sample_state))
       = Some ((load_state (Some sample_state))\<lparr>seen_ids := map v_id sample_videos,
               last_check := Some (utcnow sample_youtube)\<rparr>)"
    "printed_json (monitor_main (no_args\<lparr>arg_init := True, arg_json := True\<rparr>) sample_youtube
         (Some sample_state)) = None"
    "exit_status (monitor_main (no_args\<lparr>arg_init := True, arg_json := True\<rparr>) sample_youtube
         (Some sample_state)) = Exit 0"
    by blast+
  from a(1-3,7) e(2) 1 2 3 show ?thesis by (simp add: i)
qed

text \<open>The claim as stated fails for \<^verbatim>\<open>--init --json\<close>: with an empty
  response the run finds nothing, overwrites the state file and exits with status 0.\<close>

theorem json_run_state_policy_counterexample:
  "arg_json (no_args\<lparr>arg_init := True, arg_json := True\<rparr>)
   \<and> fetch_recent_uploads empty_youtube 50 = Inr []
   \<and> seen_ids sample_state = [''v2'', ''v0'']
   \<and> state_file (monitor_main (no_args\<lparr>arg_init := True, arg_json := True\<rparr>) empty_youtube
         (Some sample_state))
       = Some \<lparr>seen_ids = [], last_check = Some ''2024-03-02T00:00:00''\<rparr>
   \<and> exit_status (monitor_main (no_args\<lparr>arg_init := True, arg_json := True\<rparr>) empty_youtube
         (Some sample_state))
       = Exit 0"
  by (simp add: monitor_main_def no_args_def empty_youtube_def truthy_def list_mode_def
      fetch_recent_uploads_def load_state_def save_state_def sample_state_def)

text \<open>
  Claim C7, as amended. A run that is not an init run only appends to \<open>seen_ids\<close>: the
  list it leaves starts with the list it found, so no id is removed. An init run
  replaces \<open>seen_ids\<close> by the ids of the items now visible. A check run leaves
  \<open>seen_ids\<close> free of duplicates when it was so before and the ids of the response are
  distinct.
\<close>

theorem seen_ids_append_only:
  "(\<not> init_mode a \<longrightarrow>
      (\<exists>new. seen_ids (load_state (state_file (monitor_main a y file)))
          = seen_ids (load_state file) @ new))
    \<and> (\<forall>R. init_mode a \<and> truthy (youtube_api_key y) \<and> fetch_recent_uploads y 50 = Inr R
         \<longrightarrow> seen_ids (load_state (state_file (monitor_main a y file))) = map v_id R)
    \<and> (check_mode a \<and> distinct (seen_ids (load_state file))
         \<and> (\<forall>R. fetch_recent_uploads y 50 = Inr R \<longrightarrow> distinct (map v_id R))
         \<longrightarrow> distinct (seen_ids (load_state (state_file (monitor_main a y file)))))"
  by (auto simp add: monitor_main_def Let_def save_state_def check_for_new_videos_def
      load_state_def mode_defs distinct_map_filter split: sum.splits option.splits)

theorem seen_ids_append_only_witness:
  "\<not> init_mode no_args \<and> check_mode no_args
   \<and> distinct (seen_ids (load_state (Some sample_state)))
   \<and> (\<exists>new. seen_ids (load_state (state_file (monitor_main no_args sample_youtube (Some sample_state))))
          = seen_ids (load_state (Some sample_state)) @ new)
   \<and> distinct (seen_ids (load_state (state_file (monitor_main no_args sample_youtube (Some sample_state)))))
   \<and> init_mode (no_args\<lparr>arg_init := True\<rparr>)
   \<and> seen_ids (load_state (state_file
         (monitor_main (no_args\<lparr>arg_init := True\<rparr>) sample_youtube (Some sample_state))))
       = map v_id sample_videos"
proof -
  have a: "\<not> init_mode no_args" "check_mode no_args" "init_mode (no_args\<lparr>arg_init := True\<rparr>)"
    by (simp_all add: no_args_def mode_defs)
  have d: "distinct (seen_ids (load_state (Some sample_state)))"
    "\<forall>R. fetch_recent_uploads sample_youtube 50 = Inr R \<longrightarrow> distinct (map v_id R)"
    by (simp_all add: load_state_def sample_state_def fetch_sample sample_videos_def)
  show ?thesis
    using seen_ids_append_only [of no_args sample_youtube "Some sample_state"]
      seen_ids_append_only [of "no_args\<lparr>arg_init := True\<rparr>" sample_youtube "Some sample_state"]
      a d truthy_sample fetch_sample
    by simp
qed

text \<open>The claim as stated fails twice: an init run drops the seen id \<^verbatim>\<open>v0\<close>, which
  is no longer in the response, and an all run appends \<^verbatim>\<open>v2\<close> a second time.\<close>

theorem seen_ids_append_only_counterexample:
  "''v0'' \<in> set (seen_ids (load_state (Some sample_state)))
   \<and> ''v0'' \<notin> set (seen_ids (load_state (state_file
         (monitor_main (no_args\<lparr>arg_init := True\<rparr>) sample_youtube (Some sample_state)))))
   \<and> distinct (seen_ids (load_state (Some sample_state)))
   \<and> seen_ids (load_state (state_file
         (monitor_main (no_args\<lparr>arg_all := True\<rparr>) sample_youtube (Some sample_state))))
       = [''v2'', ''v0'', ''v3'', ''v2'', ''v1'']"
  by (simp add: monitor_main_def no_args_def truthy_sample list_mode_def fetch_sample
      load_state_def save_state_def sample_state_def sample_videos_def)

text \<open>
  Claim C9. An init run followed by a check run against the same response finds no new
  item: the check's delta is empty, the check run exits with status 1, and with
  \<^verbatim>\<open>--json\<close> it prints the empty list.
\<close>

theorem init_then_check_finds_nothing:
  assumes "init_mode a1" and "check_mode a2"
    and "truthy (youtube_api_key y1)" and "truthy (youtube_api_key y2)"
    and "fetch_recent_uploads y1 50 = Inr R" and "fetch_recent_uploads y2 50 = Inr R"
  shows "check_for_new_videos y2 (load_state (state_file (monitor_main a1 y1 file))) = Inr []
    \<and> exit_status (monitor_main a2 y2 (state_file (monitor_main a1 y1 file))) = Exit 1
    \<and> (arg_json a2 \<longrightarrow>
         printed_json (monitor_main a2 y2 (state_file (monitor_main a1 y1 file))) = Some [])"
proof -
  have s: "seen_ids (load_state (state_file (monitor_main a1 y1 file))) = map v_id R"
    using assms(1,3,5)
    by (simp add: monitor_main_def Let_def save_state_def load_state_def mode_defs)
  have c: "check_for_new_videos y2 (load_state (state_file (monitor_main a1 y1 file))) = Inr []"
    by (simp add: check_for_new_videos_def assms(6) s filter_empty_conv)
  show ?thesis
    using assms(2,4) c by (simp add: monitor_main_def Let_def mode_defs)
qed

theorem init_then_check_finds_nothing_witness:
  "init_mode (no_args\<lparr>arg_init := True\<rparr>) \<and> check_mode (no_args\<lparr>arg_json := True\<rparr>)
   \<and> truthy (youtube_api_key sample_youtube)
   \<and> fetch_recent_uploads sample_youtube 50 = Inr sample_videos
   \<and> exit_status (monitor_main (no_args\<lparr>arg_json := True\<rparr>) sample_youtube
        (state_file (monitor_main (no_args\<lparr>arg_init := True\<rparr>) sample_youtube (Some sample_state))))
       = Exit 1
   \<and> printed_json (monitor_main (no_args\<lparr>arg_json := True\<rparr>) sample_youtube
        (state_file (monitor_main (no_args\<lparr>arg_init := True\<rparr>) sample_youtube (Some sample_state))))
       = Some []"
proof -
  have a: "init_mode (no_args\<lparr>arg_init := True\<rparr>)" "check_mode (no_args\<lparr>arg_json := True\<rparr>)"
    "arg_json (no_args\<lparr>arg_json := True\<rparr>)"
    by (simp_all add: no_args_def mode_defs)
  show ?thesis
    using init_then_check_finds_nothing [OF a(1,2) truthy_sample truthy_sample fetch_sample fetch_sample,
        of "Some sample_state"] a truthy_sample fetch_sample
    by simp
qed

subsection \<open>Title parsing\<close>

lemma class_facts:
  "\<not> py_isspace CHR ''S''" "\<not> py_isdecimal newline" "\<not> py_isspace CHR '',''"
  "\<not> py_isdecimal CHR '',''" "newline \<noteq> CHR '',''"
  by (simp_all add: py_isspace_def py_isdecimal_def newline_def)

lemma match_docket_tail_intro:
  assumes "\<forall>x\<in>set ws. py_isspace x" and "ds \<noteq> []" and "\<forall>x\<in>set ds. py_isdecimal x"
    and "nl = [] \<or> nl = [newline]"
  shows "match_docket_tail ('','' @ ws @ ''SJC-'' @ ds @ nl) = Some (''SJC-'' @ ds)"
proof -
  have 1: "dropWhile py_isspace (ws @ ''SJC-'' @ ds @ nl) = ''SJC-'' @ ds @ nl"
    using assms(1) by (simp add: class_facts)
  have 2: "takeWhile py_isdecimal (ds @ nl) = ds"
    using assms(3,4) by (auto simp add: class_facts)
  have 3: "dropWhile py_isdecimal (ds @ nl) = nl"
    using assms(3,4) by (auto simp add: class_facts)
  have "match_docket_tail (CHR '','' # (ws @ ''SJC-'' @ ds @ nl)) = Some (''SJC-'' @ ds)"
    unfolding match_docket_tail_def list.case 1 Let_def
    using assms(2,4) by (simp add: 2 3)
  then show ?thesis by simp
qed

lemma match_docket_tail_elim:
  assumes "match_docket_tail s = Some d"
  shows "\<exists>ws ds nl. s = '','' @ ws @ ''SJC-'' @ ds @ nl \<and> (\<forall>x\<in>set ws. py_isspace x)
           \<and> ds \<noteq> [] \<and> (\<forall>x\<in>set ds. py_isdecimal x) \<and> (nl = [] \<or> nl = [newline])
           \<and> d = ''SJC-'' @ ds"
proof -
  from assms obtain r where s: "s = CHR '','' # r"
    by (cases s) (auto simp add: match_docket_tail_def split: if_splits)
  define r1 where "r1 = dropWhile py_isspace r"
  define ds where "ds = takeWhile py_isdecimal (drop 4 r1)"
  define e where "e = dropWhile py_isdecimal (drop 4 r1)"
  from assms have t: "take 4 r1 = ''SJC-''" and ds: "ds \<noteq> []" and e: "e = [] \<or> e = [newline]"
    and d: "d = ''SJC-'' @ ds"
    by (auto simp add: match_docket_tail_def s Let_def r1_def ds_def e_def split: if_splits)
  have "r = takeWhile py_isspace r @ r1" by (simp add: r1_def)
  moreover have "r1 = ''SJC-'' @ drop 4 r1" using t append_take_drop_id [of 4 r1] by simp
  moreover have "drop 4 r1 = ds @ e" by (simp add: ds_def e_def)
  ultimately have "s = '','' @ takeWhile py_isspace r @ ''SJC-'' @ ds @ e"
    using s by simp
  moreover have "\<forall>x\<in>set (takeWhile py_isspace r). py_isspace x"
    by (auto dest: set_takeWhileD)
  moreover have "\<forall>x\<in>set ds. py_isdecimal x"
    by (auto simp add: ds_def dest: set_takeWhileD)
  ultimately show ?thesis using ds e d by blast
qed

lemma match_docket_tail_no_comma:
  assumes "\<forall>x\<in>set xs. x \<noteq> CHR '',''"
  shows "match_docket_tail (drop m xs) = None"
proof (cases "drop m xs")
  case Nil
  then show ?thesis by (simp add: match_docket_tail_def)
next
  case (Cons x r)
  then have "x \<in> set xs" by (metis in_set_dropD list.set_intros(1))
  with assms Cons show ?thesis by (simp add: match_docket_tail_def)
qed

lemma dot_plus_greedy:
  assumes "0 < k" and "k \<le> n" and "match_docket_tail (drop k t) = Some d"
    and "\<forall>j. k < j \<and> j \<le> n \<longrightarrow> match_docket_tail (drop j t) = None"
  shows "dot_plus t n = Some (take k t, d)"
  using assms
proof (induction n)
  case 0
  then show ?case by simp
next
  case (Suc n)
  show ?case
  proof (cases "k = Suc n")
    case True
    with Suc.prems show ?thesis by simp
  next
    case False
    with Suc.prems have "k \<le> n" "match_docket_tail (drop (Suc n) t) = None" by auto
    with Suc show ?thesis by simp
  qed
qed

lemma dot_plus_Some:
  assumes "dot_plus t n = Some (g, d)"
  shows "\<exists>k. 0 < k \<and> k \<le> n \<and> g = take k t \<and> match_docket_tail (drop k t) = Some d"
  using assms
proof (induction n)
  case 0
  then show ?case by simp
next
  case (Suc n)
  show ?case
  proof (cases "match_docket_tail (drop (Suc n) t)")
    case None
    with Suc.prems have "dot_plus t n = Some (g, d)" by simp
    from Suc.IH [OF this] obtain k where
      "0 < k" "k \<le> n" "g = take k t" "match_docket_tail (drop k t) = Some d" by blast
    then have "0 < k \<and> k \<le> Suc n \<and> g = take k t \<and> match_docket_tail (drop k t) = Some d"
      by simp
    then show ?thesis by blast
  next
    case (Some d')
    with Suc.prems have "g = take (Suc n) t" "d' = d" by auto
    with Some show ?thesis by blast
  qed
qed

lemma re_search_title_intro:
  assumes "c \<noteq> []" and "newline \<notin> set c" and "\<forall>x\<in>set ws. py_isspace x" and "ds \<noteq> []"
    and "\<forall>x\<in>set ds. py_isdecimal x" and "nl = [] \<or> nl = [newline]"
  shows "re_search_title (c @ '','' @ ws @ ''SJC-'' @ ds @ nl) = Some (c, ''SJC-'' @ ds)"
proof -
  let ?tail = "'','' @ ws @ ''SJC-'' @ ds @ nl"
  let ?t = "c @ ?tail"
  let ?n = "length (takeWhile (\<lambda>x. x \<noteq> newline) ?t)"
  have n: "length c \<le> ?n"
    using assms(2) by (subst takeWhile_append2) auto
  have m: "match_docket_tail (drop (length c) ?t) = Some (''SJC-'' @ ds)"
    using match_docket_tail_intro [OF assms(3-6)] by simp
  have nc: "\<forall>x\<in>set (ws @ ''SJC-'' @ ds @ nl). x \<noteq> CHR '',''"
    using assms(3,5,6) class_facts by auto
  have later: "\<forall>j. length c < j \<and> j \<le> ?n \<longrightarrow> match_docket_tail (drop j ?t) = None"
  proof (intro allI impI)
    fix j assume "length c < j \<and> j \<le> ?n"
    then obtain m where j: "j = length c + Suc m" using less_iff_Suc_add by auto
    have "drop j ?t = drop m (ws @ ''SJC-'' @ ds @ nl)" by (simp add: j)
    then show "match_docket_tail (drop j ?t) = None"
      using match_docket_tail_no_comma [OF nc] by simp
  qed
  have "dot_plus ?t ?n = Some (take (length c) ?t, ''SJC-'' @ ds)"
    using assms(1) n m later by (intro dot_plus_greedy) auto
  then show ?thesis by (simp add: re_search_title_def)
qed

lemma re_search_title_elim:
  assumes "re_search_title title = Some (g, d)"
  shows "\<exists>ws ds nl. title = g @ '','' @ ws @ ''SJC-'' @ ds @ nl \<and> g \<noteq> [] \<and> newline \<notin> set g
           \<and> (\<forall>x\<in>set ws. py_isspace x) \<and> ds \<noteq> [] \<and> (\<forall>x\<in>set ds. py_isdecimal x)
           \<and> (nl = [] \<or> nl = [newline]) \<and> d = ''SJC-'' @ ds"
proof -
  let ?p = "takeWhile (\<lambda>x. x \<noteq> newline) title"
  from assms obtain k where k: "0 < k" "k \<le> length ?p" "g = take k title"
    and m: "match_docket_tail (drop k title) = Some d"
    unfolding re_search_title_def using dot_plus_Some by blast
  have "take k title = take k (?p @ dropWhile (\<lambda>x. x \<noteq> newline) title)" by simp
  also have "\<dots> = take k ?p" using k(2) by (simp del: takeWhile_dropWhile_id)
  finally have g: "g = take k ?p" using k(3) by simp
  then have "set g \<subseteq> set ?p" by (simp add: set_take_subset)
  then have nn: "newline \<notin> set g" by (auto dest: set_takeWhileD)
  have ne: "g \<noteq> []" using k(1,2) g by auto
  have "title = g @ drop k title" by (simp add: k(3))
  with match_docket_tail_elim [OF m] ne nn show ?thesis by metis
qed

lemmas parse_eval = monitor_parse_case_info_def re_search_title_def match_docket_tail_def
  newline_def py_isspace_def py_isdecimal_def strip_def

text \<open>
  Claim C6, as amended. For every title: when the title is a non-empty prefix without a
  newline, then a comma, any whitespace (also none), \<^verbatim>\<open>SJC-\<close>, one or more
  decimal digits, and then the end of the string or one final newline, \<open>case_name\<close>
  is the prefix trimmed of surrounding whitespace and \<open>docket\<close> is \<^verbatim>\<open>SJC-\<close>
  followed by the digits; for every other title \<open>case_name\<close> is the full title and
  \<open>docket\<close> is null. The two titles of the specification parse as it says.
\<close>

theorem parse_case_info_pattern:
  "monitor_parse_case_info ''Commonwealth v. X, SJC-13444''
     = \<lparr>case_name = ''Commonwealth v. X'', docket = Some ''SJC-13444''\<rparr>
   \<and> monitor_parse_case_info ''Annual State of the Judiciary''
     = \<lparr>case_name = ''Annual State of the Judiciary'', docket = None\<rparr>
   \<and> (\<forall>c ws ds nl.
         title = c @ '','' @ ws @ ''SJC-'' @ ds @ nl \<and> c \<noteq> [] \<and> newline \<notin> set c
         \<and> (\<forall>x\<in>set ws. py_isspace x) \<and> ds \<noteq> [] \<and> (\<forall>x\<in>set ds. py_isdecimal x)
         \<and> (nl = [] \<or> nl = [newline])
        \<longrightarrow> monitor_parse_case_info title = \<lparr>case_name = strip c, docket = Some (''SJC-'' @ ds)\<rparr>)
   \<and> ((\<nexists>c ws ds nl.
         title = c @ '','' @ ws @ ''SJC-'' @ ds @ nl \<and> c \<noteq> [] \<and> newline \<notin> set c
         \<and> (\<forall>x\<in>set ws. py_isspace x) \<and> ds \<noteq> [] \<and> (\<forall>x\<in>set ds. py_isdecimal x)
         \<and> (nl = [] \<or> nl = [newline]))
        \<longrightarrow> monitor_parse_case_info title = \<lparr>case_name = title, docket = None\<rparr>)"
proof (intro conjI allI impI)
  show "monitor_parse_case_info ''Commonwealth v. X, SJC-13444''
     = \<lparr>case_name = ''Commonwealth v. X'', docket = Some ''SJC-13444''\<rparr>"
    by (simp add: parse_eval)
  show "monitor_parse_case_info ''Annual State of the Judiciary''
     = \<lparr>case_name = ''Annual State of the Judiciary'', docket = None\<rparr>"
    by (simp add: parse_eval)
next
  fix c ws ds nl
  assume "title = c @ '','' @ ws @ ''SJC-'' @ ds @ nl \<and> c \<noteq> [] \<and> newline \<notin> set c
         \<and> (\<forall>x\<in>set ws. py_isspace x) \<and> ds \<noteq> [] \<and> (\<forall>x\<in>set ds. py_isdecimal x)
         \<and> (nl = [] \<or> nl = [newline])"
  then have "re_search_title title = Some (c, ''SJC-'' @ ds)"
    using re_search_title_intro [of c ws ds nl] by blast
  then show "monitor_parse_case_info title = \<lparr>case_name = strip c, docket = Some (''SJC-'' @ ds)\<rparr>"
    by (simp add: monitor_parse_case_info_def)
next
  assume no: "\<nexists>c ws ds nl.
         title = c @ '','' @ ws @ ''SJC-'' @ ds @ nl \<and> c \<noteq> [] \<and> newline \<notin> set c
         \<and> (\<forall>x\<in>set ws. py_isspace x) \<and> ds \<noteq> [] \<and> (\<forall>x\<in>set ds. py_isdecimal x)
         \<and> (nl = [] \<or> nl = [newline])"
  have "re_search_title title = None"
  proof (cases "re_search_title title")
    case None
    then show ?thesis .
  next
    case (Some gd)
    then obtain g d where "re_search_title title = Some (g, d)" by (cases gd) simp
    from re_search_title_elim [OF this] no show ?thesis by blast
  qed
  then show "monitor_parse_case_info title = \<lparr>case_name = title, docket = None\<rparr>"
    by (simp add: monitor_parse_case_info_def)
qed

theorem parse_case_info_pattern_witness:
  "monitor_parse_case_info ''Doe v. Roe ,  SJC-13001''
     = \<lparr>case_name = ''Doe v. Roe'', docket = Some ''SJC-13001''\<rparr>
   \<and> (\<nexists>c ws ds nl.
         ''State of the Judiciary'' = c @ '','' @ ws @ ''SJC-'' @ ds @ nl \<and> c \<noteq> []
         \<and> newline \<notin> set c
         \<and> (\<forall>x\<in>set ws. py_isspace x) \<and> ds \<noteq> [] \<and> (\<forall>x\<in>set ds. py_isdecimal x)
         \<and> (nl = [] \<or> nl = [newline]))
   \<and> monitor_parse_case_info ''State of the Judiciary''
     = \<lparr>case_name = ''State of the Judiciary'', docket = None\<rparr>"
proof -
  have h: "''Doe v. Roe ,  SJC-13001'' = ''Doe v. Roe '' @ '','' @ ''  '' @ ''SJC-'' @ ''13001'' @ []
      \<and> ''Doe v. Roe '' \<noteq> [] \<and> newline \<notin> set ''Doe v. Roe ''
      \<and> (\<forall>x\<in>set ''  ''. py_isspace x) \<and> ''13001'' \<noteq> [] \<and> (\<forall>x\<in>set ''13001''. py_isdecimal x)
      \<and> ([] = [] \<or> [] = [newline])"
    by (simp add: newline_def py_isspace_def py_isdecimal_def)
  have s: "strip ''Doe v. Roe '' = ''Doe v. Roe''"
    by (simp add: strip_def py_isspace_def)
  have n: "\<nexists>c ws ds nl.
         ''State of the Judiciary'' = c @ '','' @ ws @ ''SJC-'' @ ds @ nl \<and> c \<noteq> []
         \<and> newline \<notin> set c
         \<and> (\<forall>x\<in>set ws. py_isspace x) \<and> ds \<noteq> [] \<and> (\<forall>x\<in>set ds. py_isdecimal x)
         \<and> (nl = [] \<or> nl = [newline])"
  proof
    assume "\<exists>c ws ds nl.
         ''State of the Judiciary'' = c @ '','' @ ws @ ''SJC-'' @ ds @ nl \<and> c \<noteq> []
         \<and> newline \<notin> set c
         \<and> (\<forall>x\<in>set ws. py_isspace x) \<and> ds \<noteq> [] \<and> (\<forall>x\<in>set ds. py_isdecimal x)
         \<and> (nl = [] \<or> nl = [newline])"
    then obtain c r where "''State of the Judiciary'' = c @ '','' @ r" by blast
    then have "set ''State of the Judiciary'' = set (c @ '','' @ r)" by simp
    then have "CHR '','' \<in> set ''State of the Judiciary''" by simp
    then show False by simp
  qed
  from parse_case_info_pattern [of "''Doe v. Roe ,  SJC-13001''"] h
  have 1: "monitor_parse_case_info ''Doe v. Roe ,  SJC-13001''
     = \<lparr>case_name = strip ''Doe v. Roe '', docket = Some (''SJC-'' @ ''13001'')\<rparr>"
    by blast
  from parse_case_info_pattern [of "''State of the Judiciary''"] n
  have 2: "monitor_parse_case_info ''State of the Judiciary''
     = \<lparr>case_name = ''State of the Judiciary'', docket = None\<rparr>"
    by blast
  from 1 2 n s show ?thesis by simp
qed

text \<open>The claim as stated fails where the pattern stands at the end of the title and
  group 1 cannot match: with nothing before the comma, and with a newline before it.\<close>

theorem parse_case_info_pattern_counterexample:
  "'', SJC-1'' = [] @ '', SJC-'' @ ''1''
   \<and> monitor_parse_case_info '', SJC-1'' = \<lparr>case_name = '', SJC-1'', docket = None\<rparr>
   \<and> monitor_parse_case_info (''A'' @ [newline] @ ''B, SJC-12'')
       = \<lparr>case_name = ''A'' @ [newline] @ ''B, SJC-12'', docket = None\<rparr>"
  by (simp add: parse_eval)

text \<open>
  Claim C10. The title parser of the discovery stage and the title parser of the
  processing stage return the same \<open>case_name\<close> and \<open>docket\<close> for every title.
\<close>

theorem parse_case_info_agree:
  "monitor_parse_case_info title = process_videos_parse_case_info title"
  by (simp add: monitor_parse_case_info_def process_videos_parse_case_info_def)

subsection \<open>The steps of \<^verbatim>\<open>process_video\<close>\<close>

lemma download_audio_calls:
  assumes "download_audio env w vid t = (w1, got)"
  shows "\<exists>more. calls w1 = calls w @ more \<and> (\<forall>c\<in>set more. call_id c = vid)"
  using assms by (auto simp add: download_audio_def Let_def split: if_splits prod.splits)

lemma tag_audio_calls:
  assumes "tag_audio env w vid v = (w2, r)"
  shows "\<exists>more. calls w2 = calls w @ more \<and> (\<forall>c\<in>set more. call_id c = vid)"
  using assms by (auto simp add: tag_audio_def Let_def split: if_splits option.splits sum.splits)

lemma tag_audio_keeps_file:
  assumes "tag_audio env w vid v = (w2, Inr u)" and "audio_dir w vid \<noteq> None"
  shows "audio_dir w2 vid \<noteq> None"
  using assms by (auto simp add: tag_audio_def Let_def split: if_splits option.splits sum.splits)

lemma upload_to_b2_calls:
  assumes "upload_to_b2 env w vid = (w3, r)"
  shows "\<exists>more. calls w3 = calls w @ more \<and> (\<forall>c\<in>set more. call_id c = vid)"
  using assms by (auto simp add: upload_to_b2_def Let_def split: if_splits)

lemma upload_to_b2_audio_dir:
  assumes "upload_to_b2 env w vid = (w3, r)"
  shows "audio_dir w3 = audio_dir w"
  using assms by (auto simp add: upload_to_b2_def Let_def split: if_splits)

lemma upload_to_b2_url:
  assumes "upload_to_b2 env w vid = (w3, Inr url)"
  shows "truthy url \<longleftrightarrow> url \<noteq> None"
  using assms by (auto simp add: upload_to_b2_def Let_def truthy_def split: if_splits option.splits)

text \<open>The ways in which \<^verbatim>\<open>process_video\<close> ends, as a case rule.\<close>

lemma process_video_fetch_failed:
  assumes "download_audio env w (v_id v) (v_title v) = (w1, got)"
    and "\<not> got \<or> audio_dir w1 (v_id v) = None"
  shows "process_video env w v = (w1, Inr None)"
  using assms by (auto simp add: process_video_def Let_def)

lemma process_video_cases:
  assumes "process_video env w v = (w', r)"
  obtains
    (fetch_failed) got where "download_audio env w (v_id v) (v_title v) = (w', got)"
      and "\<not> got \<or> audio_dir w' (v_id v) = None" and "r = Inr None"
  | (tag_raised) w1 e where "download_audio env w (v_id v) (v_title v) = (w1, True)"
      and "audio_dir w1 (v_id v) \<noteq> None"
      and "tag_audio env w1 (v_id v) v = (w', Inl e)" and "r = Inl e"
  | (upload_raised) w1 w2 u e where "download_audio env w (v_id v) (v_title v) = (w1, True)"
      and "audio_dir w1 (v_id v) \<noteq> None"
      and "tag_audio env w1 (v_id v) v = (w2, Inr u)"
      and "upload_to_b2 env w2 (v_id v) = (w', Inl e)" and "r = Inl e"
  | (finished) w1 w2 u sz w3 url where "download_audio env w (v_id v) (v_title v) = (w1, True)"
      and "audio_dir w1 (v_id v) \<noteq> None"
      and "tag_audio env w1 (v_id v) v = (w2, Inr u)"
      and "audio_dir w2 (v_id v) = Some sz"
      and "upload_to_b2 env w2 (v_id v) = (w3, Inr url)"
      and "w' = (if truthy url \<and> audio_dir w3 (v_id v) \<noteq> None
                 then w3\<lparr>audio_dir := (audio_dir w3)((v_id v) := None)\<rparr> else w3)"
      and "r = Inr (Some \<lparr>video_id = v_id v, ep_title = v_title v,
                 ep_description = v_description v, published_at = v_published_at v,
                 audio_url = url, file_size = sz, processed_at = process_utcnow env\<rparr>)"
proof -
  obtain w1 got where d: "download_audio env w (v_id v) (v_title v) = (w1, got)"
    by (cases "download_audio env w (v_id v) (v_title v)")
  show thesis
  proof (cases "\<not> got \<or> audio_dir w1 (v_id v) = None")
    case True
    with d have "process_video env w v = (w1, Inr None)"
      by (rule process_video_fetch_failed)
    with assms have "w' = w1" "r = Inr None" by simp_all
    with d True show ?thesis by (intro fetch_failed [of got]) simp_all
  next
    case False
    then have got: "got" and fl: "audio_dir w1 (v_id v) \<noteq> None" by auto
    from d got have d': "download_audio env w (v_id v) (v_title v) = (w1, True)" by simp
    obtain w2 tr where t: "tag_audio env w1 (v_id v) v = (w2, tr)"
      by (cases "tag_audio env w1 (v_id v) v")
    show ?thesis
    proof (cases tr)
      case (Inl e)
      with d' fl t have "process_video env w v = (w2, Inl e)"
        by (simp add: process_video_def Let_def)
      with assms have "w' = w2" "r = Inl e" by simp_all
      with d' fl t Inl show ?thesis by (intro tag_raised [of w1 e]) simp_all
    next
      case (Inr u)
      with t fl have "audio_dir w2 (v_id v) \<noteq> None" by (auto dest: tag_audio_keeps_file)
      then obtain sz where sz: "audio_dir w2 (v_id v) = Some sz" by auto
      obtain w3 ur where up: "upload_to_b2 env w2 (v_id v) = (w3, ur)"
        by (cases "upload_to_b2 env w2 (v_id v)")
      from t Inr have t': "tag_audio env w1 (v_id v) v = (w2, Inr u)" by simp
      show ?thesis
      proof (cases ur)
        case (Inl e)
        with d' fl t' sz up have "process_video env w v = (w3, Inl e)"
          by (simp add: process_video_def Let_def)
        with assms have "w' = w3" "r = Inl e" by simp_all
        with d' fl t' up Inl show ?thesis by (intro upload_raised [of w1 w2 u e]) simp_all
      next
        case (Inr url)
        with d' fl t' sz up have "process_video env w v =
          ((if truthy url \<and> audio_dir w3 (v_id v) \<noteq> None
            then w3\<lparr>audio_dir := (audio_dir w3)((v_id v) := None)\<rparr> else w3),
           Inr (Some \<lparr>video_id = v_id v, ep_title = v_title v,
                 ep_description = v_description v, published_at = v_published_at v,
                 audio_url = url, file_size = sz, processed_at = process_utcnow env\<rparr>))"
          by (simp add: process_video_def Let_def)
        with assms have "w' = (if truthy url \<and> audio_dir w3 (v_id v) \<noteq> None
            then w3\<lparr>audio_dir := (audio_dir w3)((v_id v) := None)\<rparr> else w3)"
          "r = Inr (Some \<lparr>video_id = v_id v, ep_title = v_title v,
                 ep_description = v_description v, published_at = v_published_at v,
                 audio_url = url, file_size = sz, processed_at = process_utcnow env\<rparr>)"
          by simp_all
        with d' fl t' sz up Inr show ?thesis
          by (intro finished [of w1 w2 u sz w3 url]) simp_all
      qed
    qed
  qed
qed

lemma process_video_calls:
  assumes "process_video env w v = (w', r)"
  shows "\<exists>more. calls w' = calls w @ more \<and> (\<forall>c\<in>set more. call_id c = v_id v)"
  using assms
proof (cases rule: process_video_cases)
  case (fetch_failed got)
  then show ?thesis by (auto dest: download_audio_calls)
next
  case (tag_raised w1 e)
  from download_audio_calls [OF tag_raised(1)] tag_audio_calls [OF tag_raised(3)]
  show ?thesis by force
next
  case (upload_raised w1 w2 u e)
  from download_audio_calls [OF upload_raised(1)] tag_audio_calls [OF upload_raised(3)]
    upload_to_b2_calls [OF upload_raised(4)]
  show ?thesis by force
next
  case (finished w1 w2 u sz w3 url)
  from download_audio_calls [OF finished(1)] tag_audio_calls [OF finished(3)]
    upload_to_b2_calls [OF finished(5)]
  obtain m1 m2 m3 where "calls w3 = calls w @ (m1 @ m2 @ m3)"
    "\<forall>c\<in>set (m1 @ m2 @ m3). call_id c = v_id v" by force
  moreover have "calls w' = calls w3" using finished(6) by simp
  ultimately show ?thesis by metis
qed

lemma process_video_episode:
  assumes "process_video env w v = (w', Inr (Some ep))"
  shows "video_id ep = v_id v \<and> ep_title ep = v_title v
    \<and> published_at ep = v_published_at v \<and> ep_description ep = v_description v
    \<and> (audio_dir w' (v_id v) = None \<longleftrightarrow> audio_url ep \<noteq> None)"
  using assms
proof (cases rule: process_video_cases)
  case (finished w1 w2 u sz w3 url)
  have "audio_dir w3 (v_id v) = Some sz"
    using upload_to_b2_audio_dir [OF finished(5)] finished(4) by simp
  moreover have "truthy url \<longleftrightarrow> url \<noteq> None"
    using upload_to_b2_url [OF finished(5)] .
  ultimately show ?thesis using finished(6,7) by auto
qed simp_all

lemma process_loop_skips:
  assumes "v_id ` set vs \<subseteq> ex"
  shows "process_loop env ex vs w eps = (w, Inr eps)"
  using assms by (induction vs) auto

lemma process_loop_appends:
  assumes "process_loop env ex vs w eps = (w', Inr eps')"
  shows "\<exists>new. eps' = eps @ new \<and> set (map video_id new) \<subseteq> v_id ` set vs - ex
           \<and> (distinct (map v_id vs) \<longrightarrow> distinct (map video_id new))"
  using assms
proof (induction vs arbitrary: w eps)
  case Nil
  then show ?case by simp
next
  case (Cons v vs)
  show ?case
  proof (cases "v_id v \<in> ex")
    case True
    with Cons.prems have "process_loop env ex vs w eps = (w', Inr eps')" by simp
    from Cons.IH [OF this] show ?thesis by auto
  next
    case False
    obtain w1 r where pv: "process_video env w v = (w1, r)"
      by (cases "process_video env w v")
    show ?thesis
    proof (cases r)
      case (Inl e)
      with Cons.prems False pv show ?thesis by simp
    next
      case (Inr res)
      show ?thesis
      proof (cases res)
        case None
        with Cons.prems False pv Inr have "process_loop env ex vs w1 eps = (w', Inr eps')"
          by simp
        from Cons.IH [OF this] show ?thesis by auto
      next
        case (Some ep)
        with Cons.prems False pv Inr
        have "process_loop env ex vs w1 (eps @ [ep]) = (w', Inr eps')" by simp
        from Cons.IH [OF this] obtain new where
          n: "eps' = (eps @ [ep]) @ new" "set (map video_id new) \<subseteq> v_id ` set vs - ex"
            "distinct (map v_id vs) \<longrightarrow> distinct (map video_id new)" by blast
        have i: "video_id ep = v_id v"
          using process_video_episode pv Inr Some by blast
        have "eps' = eps @ (ep # new)" using n(1) by simp
        moreover have "set (map video_id (ep # new)) \<subseteq> v_id ` set (v # vs) - ex"
          using n(2) i False by auto
        moreover have "distinct (map v_id (v # vs)) \<longrightarrow> distinct (map video_id (ep # new))"
          using n(2,3) i by auto
        ultimately show ?thesis by blast
      qed
    qed
  qed
qed

lemma process_loop_calls:
  assumes "process_loop env ex vs w eps = (w', r)"
  shows "\<exists>more. calls w' = calls w @ more \<and> (\<forall>c\<in>set more. call_id c \<in> v_id ` set vs - ex)"
  using assms
proof (induction vs arbitrary: w eps)
  case Nil
  then show ?case by simp
next
  case (Cons v vs)
  show ?case
  proof (cases "v_id v \<in> ex")
    case True
    with Cons.prems have "process_loop env ex vs w eps = (w', r)" by simp
    from Cons.IH [OF this] show ?thesis by auto
  next
    case False
    obtain w1 r1 where pv: "process_video env w v = (w1, r1)"
      by (cases "process_video env w v")
    from process_video_calls [OF pv] obtain m1 where
      m1: "calls w1 = calls w @ m1" "\<forall>c\<in>set m1. call_id c = v_id v" by blast
    have here: "\<forall>c\<in>set m1. call_id c \<in> v_id ` set (v # vs) - ex"
      using m1(2) False by auto
    show ?thesis
    proof (cases "\<exists>e. r1 = Inl e")
      case True
      with Cons.prems False pv have "w' = w1" by auto
      with m1(1) here show ?thesis by blast
    next
      case nl: False
      then obtain eps1 where "process_loop env ex vs w1 eps1 = (w', r)"
        using Cons.prems \<open>v_id v \<notin> ex\<close> pv
        by (cases r1; cases "projr r1") auto
      from Cons.IH [OF this] obtain m2 where
        m2: "calls w' = calls w1 @ m2" "\<forall>c\<in>set m2. call_id c \<in> v_id ` set vs - ex" by blast
      have "calls w' = calls w @ (m1 @ m2)" using m1(1) m2(1) by simp
      moreover have "\<forall>c\<in>set (m1 @ m2). call_id c \<in> v_id ` set (v # vs) - ex"
        using here m2(2) by auto
      ultimately show ?thesis by blast
    qed
  qed
qed

lemmas sample_defs = sample_env_def sample_env_b2_def sample_env_offline_def sample_video_def
  sample_episode_def empty_world_def

lemmas process_video_eval = process_video_def download_audio_def tag_audio_def upload_to_b2_def
  truthy_def Let_def

lemma run_sample:
  "process_video sample_env empty_world sample_video
     = (\<lparr>audio_dir = [''v3'' \<mapsto> 1000], calls = [Fetch ''v3'']\<rparr>, Inr (Some sample_episode))"
  by (simp add: process_video_eval sample_defs)

lemma run_sample_offline:
  "process_video sample_env_offline empty_world sample_video
     = (\<lparr>audio_dir = Map.empty, calls = [Fetch ''v3'']\<rparr>, Inr None)"
  by (simp add: process_video_eval sample_defs)

lemma main_sample:
  "episodes_file (process_videos_main sample_env empty_world (Some [sample_video]) None None)
     = Some [sample_episode]"
  "final_world (process_videos_main sample_env empty_world (Some [sample_video]) None None)
     = \<lparr>audio_dir = [''v3'' \<mapsto> 1000], calls = [Fetch ''v3'']\<rparr>"
  by (simp_all add: process_videos_main_def load_episodes_def save_episodes_def run_sample
      sample_video_def [symmetric] split: sum.splits)

lemmas main_eval = process_videos_main_def load_episodes_def save_episodes_def
  process_video_eval sample_defs generate_feed_def sorted_episodes_def py_sorted_reverse_def

subsection \<open>The feed\<close>

text \<open>
  The loop of \<^verbatim>\<open>generate_feed\<close> visits the episodes by \<open>published_at\<close>
  descending, episodes of one date in catalog order; each entry is put in front of the
  entries added before it, so the feed document lists the entries in the reverse of the
  order of the visits: by \<open>published_at\<close> ascending.
\<close>

lemma add_entries_result:
  assumes "add_entries env acc eps = Inr fg"
  shows "fg = rev (map feed_entry_of eps) @ acc"
  using assms
  by (induction eps arbitrary: acc) (auto simp add: add_entry_def split: if_splits)

lemma add_entries_accepted:
  assumes "\<forall>ep\<in>set eps. feedgen_published env (published_at ep)"
  shows "add_entries env acc eps = Inr (rev (map feed_entry_of eps) @ acc)"
  using assms by (induction eps arbitrary: acc) (simp_all add: add_entry_def)

lemma add_entries_rejected:
  assumes "ep \<in> set eps" and "\<not> feedgen_published env (published_at ep)"
  shows "add_entries env acc eps = Inl ValueError"
  using assms by (induction eps arbitrary: acc) auto

lemma generate_feed_document:
  assumes "has_feedgen env" and "generate_feed env eps old = Inr doc"
  shows "doc = Some (rev (map feed_entry_of (sorted_episodes eps)))"
  using assms
  by (auto simp add: generate_feed_def split: sum.splits dest: add_entries_result)

text \<open>With feedgen, the feed is written exactly when feedgen accepts every date; one
  date it does not accept makes \<^verbatim>\<open>generate_feed\<close> raise.\<close>

lemma generate_feed_accepted:
  assumes "has_feedgen env" and "\<forall>ep\<in>set eps. feedgen_published env (published_at ep)"
  shows "generate_feed env eps old = Inr (Some (rev (map feed_entry_of (sorted_episodes eps))))"
proof -
  have "set (sorted_episodes eps) = set eps"
    by (simp add: sorted_episodes_def py_sorted_reverse_def)
  with assms(2) have "\<forall>ep\<in>set (sorted_episodes eps). feedgen_published env (published_at ep)"
    by simp
  from add_entries_accepted [OF this, of "[]"] assms(1) show ?thesis
    by (simp add: generate_feed_def)
qed

lemma generate_feed_raises:
  assumes "has_feedgen env" and "ep \<in> set eps"
    and "\<not> feedgen_published env (published_at ep)"
  shows "generate_feed env eps old = Inl ValueError"
proof -
  have "ep \<in> set (sorted_episodes eps)"
    using assms(2) by (simp add: sorted_episodes_def py_sorted_reverse_def)
  from add_entries_rejected [OF this assms(3), of "[]"] assms(1) show ?thesis
    by (simp add: generate_feed_def)
qed

lemma sorted_episodes_descending:
  "sorted (rev (map published_at (sorted_episodes eps)))"
  by (simp add: sorted_episodes_def py_sorted_reverse_def rev_map)

lemma sorted_episodes_stable:
  "filter (\<lambda>e. published_at e = d) (sorted_episodes eps) = filter (\<lambda>e. published_at e = d) eps"
proof -
  have "filter (\<lambda>e. published_at e = d) (sort_key published_at (rev eps))
      = filter (\<lambda>e. published_at e = d) (rev eps)"
    by (rule sort_key_stable)
  then show ?thesis
    by (simp add: sorted_episodes_def py_sorted_reverse_def rev_filter [symmetric])
qed

lemma feed_document_ascending:
  assumes "has_feedgen env" and "generate_feed env eps old = Inr (Some es)"
  shows "sorted (map fe_published es)"
proof -
  have "es = rev (map feed_entry_of (sorted_episodes eps))"
    using generate_feed_document [OF assms] by simp
  then have "map fe_published es = rev (map published_at (sorted_episodes eps))"
    by (simp add: rev_map feed_entry_of_def comp_def)
  then show ?thesis by (simp add: sorted_episodes_descending)
qed

text \<open>
  Claim C5. The claim says that the entries of the feed appear by \<open>published_at\<close>
  descending, so that episodes dated 2024-01-01, 2024-03-01, 2024-02-01 appear in the
  order 03-01, 02-01, 01-01. On this catalog the loop of \<^verbatim>\<open>generate_feed\<close>
  visits the episodes in that order, and the feed document it writes lists them in the
  order 01-01, 02-01, 03-01.
\<close>

theorem feed_document_sample:
  "map published_at (sorted_episodes sample_catalog)
     = [''2024-03-01T12:00:00Z'', ''2024-02-01T12:00:00Z'', ''2024-01-01T12:00:00Z'']
   \<and> generate_feed sample_env sample_catalog None
     = Inr (Some [feed_entry_of (dated_episode ''a'' ''2024-01-01T12:00:00Z''),
                  feed_entry_of (dated_episode ''c'' ''2024-02-01T12:00:00Z''),
                  feed_entry_of (dated_episode ''b'' ''2024-03-01T12:00:00Z'')])"
  by (simp add: generate_feed_def sample_env_def sample_catalog_def dated_episode_def
      sorted_episodes_def py_sorted_reverse_def add_entry_def)

text \<open>On the same episodes with dates that carry no time zone the loop raises at the
  first entry, and a run that appends such an episode saves the catalog, leaves the
  feed file as it was and ends with the exception.\<close>

lemma feed_date_only_raises:
  "generate_feed sample_env date_only_catalog None = Inl ValueError"
  by (simp add: generate_feed_def sample_env_def date_only_catalog_def dated_episode_def
      sorted_episodes_def py_sorted_reverse_def)

lemma main_date_only_raises:
  "process_exit (process_videos_main sample_env empty_world
       (Some [sample_video\<lparr>v_published_at := ''2024-03-01''\<rparr>]) None None)
     = Raised ValueError
   \<and> episodes_file (process_videos_main sample_env empty_world
       (Some [sample_video\<lparr>v_published_at := ''2024-03-01''\<rparr>]) None None)
     = Some [sample_episode\<lparr>published_at := ''2024-03-01''\<rparr>]
   \<and> feed_file (process_videos_main sample_env empty_world
       (Some [sample_video\<lparr>v_published_at := ''2024-03-01''\<rparr>]) None None)
     = None"
  by (simp add: main_eval)

subsection \<open>One record\<close>



subsection \<open>The catalog\<close>

text \<open>
  Claim C8, as amended. When the video ids of the loaded catalog are distinct and the
  ids of the input list are distinct, the video ids of the catalog are distinct after
  the run, however the run ends.
\<close>

theorem catalog_ids_stay_distinct:
  assumes "distinct (map video_id (load_episodes cat))"
    and "\<forall>vs. inp = Some vs \<longrightarrow> distinct (map v_id vs)"
  shows "distinct (map video_id
           (load_episodes (episodes_file (process_videos_main env w inp cat feed))))"
proof (cases inp)
  case None
  with assms(1) show ?thesis by (simp add: process_videos_main_def)
next
  case (Some vs)
  let ?eps = "load_episodes cat"
  let ?ex = "set (map video_id ?eps)"
  obtain w' r where l: "process_loop env ?ex vs w ?eps = (w', r)"
    by (cases "process_loop env ?ex vs w ?eps")
  show ?thesis
  proof (cases r)
    case (Inl e)
    with Some l assms(1) show ?thesis by (simp add: process_videos_main_def Let_def)
  next
    case (Inr eps')
    with l process_loop_appends [of env ?ex vs w ?eps w' eps'] assms(2) Some
    obtain new where n: "eps' = ?eps @ new" "set (map video_id new) \<subseteq> v_id ` set vs - ?ex"
      "distinct (map video_id new)" by auto
    then have "distinct (map video_id eps')" using assms(1) by auto
    with Some l Inr assms(1) show ?thesis
      by (simp add: process_videos_main_def Let_def save_episodes_def load_episodes_def
          split: sum.splits)
  qed
qed

theorem catalog_ids_stay_distinct_witness:
  "distinct (map video_id (load_episodes (Some [sample_episode])))
   \<and> distinct (map v_id sample_videos)
   \<and> map video_id (load_episodes (episodes_file
        (process_videos_main sample_env empty_world (Some sample_videos)
           (Some [sample_episode]) None)))
     = [''v3'', ''v2'', ''v1'']
   \<and> distinct (map video_id (load_episodes (episodes_file
        (process_videos_main sample_env empty_world (Some sample_videos)
           (Some [sample_episode]) None))))"
proof -
  have h: "distinct (map video_id (load_episodes (Some [sample_episode])))"
    "\<forall>vs. Some sample_videos = Some vs \<longrightarrow> distinct (map v_id vs)"
    by (simp_all add: load_episodes_def sample_videos_def)
  have e: "map video_id (load_episodes (episodes_file
        (process_videos_main sample_env empty_world (Some sample_videos)
           (Some [sample_episode]) None)))
     = [''v3'', ''v2'', ''v1'']"
    by (simp add: main_eval sample_videos_def)
  from catalog_ids_stay_distinct [OF h, of sample_env empty_world None] h e
  show ?thesis by (simp add: sample_videos_def)
qed

text \<open>
  The claim as stated fails for an input list that repeats an id not in the catalog:
  \<open>existing_ids\<close> is not extended in the loop, so both records are processed.
\<close>

theorem catalog_ids_stay_distinct_counterexample:
  "distinct (map video_id (load_episodes None))
   \<and> map video_id (load_episodes (episodes_file
        (process_videos_main sample_env empty_world (Some [sample_video, sample_video]) None None)))
     = [''v3'', ''v3'']"
  by (simp add: main_eval)

lemma process_videos_main_skips:
  assumes "v_id ` set vs \<subseteq> video_id ` set (load_episodes cat)"
  shows "episodes_file (process_videos_main env w (Some vs) cat feed) = cat
    \<and> final_world (process_videos_main env w (Some vs) cat feed) = w"
proof (cases "vs = []")
  case True
  then show ?thesis by (simp add: process_videos_main_def)
next
  case False
  with assms have "load_episodes cat \<noteq> []" by (cases vs) auto
  then obtain c where c: "cat = Some c" by (cases cat) (simp_all add: load_episodes_def)
  have "process_loop env (set (map video_id (load_episodes cat))) vs w (load_episodes cat)
      = (w, Inr (load_episodes cat))"
    using assms by (intro process_loop_skips) simp
  with False c show ?thesis
    by (simp add: process_videos_main_def Let_def save_episodes_def load_episodes_def
        split: sum.splits)
qed

text \<open>
  Claim C2, as amended. When every record of the input list has an entry in the catalog
  left by a first run, a second run on that catalog with the same input list leaves the
  catalog file and the audio directory as they are and makes no call, in whatever
  environment it runs. In every run, each episode appended has a video id that is not
  in the loaded catalog, and each download, tagging and upload is for such an id:
  a record whose id is in the loaded catalog is skipped.
\<close>

theorem replay_skips_present_records:
  fixes env1 env2 w vs cat feed
  defines "r1 \<equiv> process_videos_main env1 w (Some vs) cat feed"
  defines "r2 \<equiv> process_videos_main env2 (final_world r1) (Some vs) (episodes_file r1) (feed_file r1)"
  shows "((\<forall>v\<in>set vs. v_id v \<in> video_id ` set (load_episodes (episodes_file r1)))
            \<longrightarrow> episodes_file r2 = episodes_file r1 \<and> final_world r2 = final_world r1)
    \<and> (\<exists>new. load_episodes (episodes_file r1) = load_episodes cat @ new
          \<and> (\<forall>e\<in>set new. video_id e \<notin> video_id ` set (load_episodes cat)))
    \<and> (\<exists>more. calls (final_world r1) = calls w @ more
          \<and> (\<forall>c\<in>set more. call_id c \<notin> video_id ` set (load_episodes cat)))"
proof (intro conjI impI)
  assume "\<forall>v\<in>set vs. v_id v \<in> video_id ` set (load_episodes (episodes_file r1))"
  then have "v_id ` set vs \<subseteq> video_id ` set (load_episodes (episodes_file r1))" by auto
  from process_videos_main_skips [OF this, of env2 "final_world r1" "feed_file r1"]
  show "episodes_file r2 = episodes_file r1" "final_world r2 = final_world r1"
    by (simp_all add: r2_def)
next
  let ?eps = "load_episodes cat"
  let ?ex = "set (map video_id ?eps)"
  obtain w' r where l: "process_loop env1 ?ex vs w ?eps = (w', r)"
    by (cases "process_loop env1 ?ex vs w ?eps")
  have fw: "vs \<noteq> [] \<Longrightarrow> final_world r1 = w'"
    using l by (cases r) (simp_all add: r1_def process_videos_main_def Let_def split: sum.splits)
  show "\<exists>new. load_episodes (episodes_file r1) = ?eps @ new
          \<and> (\<forall>e\<in>set new. video_id e \<notin> video_id ` set ?eps)"
  proof (cases "vs = [] \<or> (\<exists>e. r = Inl e)")
    case True
    with l have "episodes_file r1 = cat"
      by (auto simp add: r1_def process_videos_main_def Let_def)
    then show ?thesis by simp
  next
    case False
    then obtain eps' where r: "r = Inr eps'" by (cases r) auto
    with l process_loop_appends [of env1 ?ex vs w ?eps w' eps']
    obtain new where n: "eps' = ?eps @ new" "set (map video_id new) \<subseteq> v_id ` set vs - ?ex"
      by auto
    have "load_episodes (episodes_file r1) = eps'"
      using False l r
      by (simp add: r1_def process_videos_main_def Let_def save_episodes_def load_episodes_def
          split: sum.splits)
    with n show ?thesis by auto
  qed
  show "\<exists>more. calls (final_world r1) = calls w @ more
          \<and> (\<forall>c\<in>set more. call_id c \<notin> video_id ` set ?eps)"
  proof (cases "vs = []")
    case True
    then have "final_world r1 = w" by (simp add: r1_def process_videos_main_def)
    then show ?thesis by simp
  next
    case False
    from process_loop_calls [OF l] obtain more where
      "calls w' = calls w @ more" "\<forall>c\<in>set more. call_id c \<in> v_id ` set vs - ?ex" by blast
    with fw [OF False] show ?thesis by auto
  qed
qed

theorem replay_skips_present_records_witness:
  "v_id sample_video \<in> video_id ` set (load_episodes (episodes_file
       (process_videos_main sample_env empty_world (Some [sample_video]) None None)))
   \<and> episodes_file (process_videos_main sample_env empty_world (Some [sample_video]) None None)
       = Some [sample_episode]
   \<and> episodes_file (process_videos_main sample_env_offline
         (final_world (process_videos_main sample_env empty_world (Some [sample_video]) None None))
         (Some [sample_video])
         (episodes_file (process_videos_main sample_env empty_world (Some [sample_video]) None None))
         (feed_file (process_videos_main sample_env empty_world (Some [sample_video]) None None)))
       = Some [sample_episode]
   \<and> calls (final_world (process_videos_main sample_env_offline
         (final_world (process_videos_main sample_env empty_world (Some [sample_video]) None None))
         (Some [sample_video])
         (episodes_file (process_videos_main sample_env empty_world (Some [sample_video]) None None))
         (feed_file (process_videos_main sample_env empty_world (Some [sample_video]) None None))))
       = [Fetch ''v3'']"
proof -
  have h: "\<forall>v\<in>set [sample_video]. v_id v \<in> video_id ` set (load_episodes (episodes_file
       (process_videos_main sample_env empty_world (Some [sample_video]) None None)))"
    unfolding main_sample by (simp add: load_episodes_def sample_video_def sample_episode_def)
  show ?thesis
    using replay_skips_present_records
      [of "[sample_video]" sample_env empty_world None None sample_env_offline] h
    by (simp add: main_sample)
qed

text \<open>
  The claim as stated fails when the first run could not fetch a record: the record
  gets no entry, and the second run, where the download succeeds, appends one.
\<close>

theorem replay_skips_present_records_counterexample:
  "episodes_file (process_videos_main sample_env_offline empty_world (Some [sample_video]) None None)
     = Some []
   \<and> episodes_file (process_videos_main sample_env
         (final_world (process_videos_main sample_env_offline empty_world (Some [sample_video]) None None))
         (Some [sample_video])
         (episodes_file (process_videos_main sample_env_offline empty_world (Some [sample_video]) None None))
         (feed_file (process_videos_main sample_env_offline empty_world (Some [sample_video]) None None)))
     = Some [sample_episode]"
  by (simp add: main_eval)

end
